theory Spec2Isabelle
  imports Main "HOL-Library.Word"
begin

unbundle bit_operations_syntax

section \<open>Bytes, strings and errors\<close>

text \<open>
  A Go \<open>[]byte\<close> is a list of 8-bit words. A Go \<open>string\<close> (the hex signature, a path,
  a file name) is a \<open>string\<close>: a list of 8-bit characters.

  Every error the package returns is a value of \<open>error\<close>. A runtime panic is not an
  error value in Go; it is the constructor \<open>PanicNilDereference\<close>, kept apart from
  every returned error. Errors that come out of a library call unchanged are
  \<open>LibraryError\<close> with the library's message.
\<close>

type_synonym byte = "8 word"
type_synonym bytes = "byte list"

datatype error =
    ErrInsufficientData
  | ErrSignatureMismatch
  | ErrInvalidFileType
  | ErrInvalidFileName
  | KeySizeError nat
  | InvalidByteError char
  | ErrLength
  | ErrEOF
  | ErrUnexpectedEOF
  | ErrShortWrite
  | ErrNotExist
  | ErrExist
  | ErrTooManyLinks
  | ErrNoSpace
  | ErrIsDirectory
  | LibraryError string
  | PanicNilDereference

section \<open>encoding/hex\<close>

text \<open>
  \<open>hex.EncodeToString\<close> writes two characters of the table \<open>0123456789abcdef\<close> for
  each byte, the high nibble first. \<open>hex.DecodeString\<close> reads the string two
  characters at a time, accepts both cases of \<open>a\<close>..\<open>f\<close>, fails with
  \<open>InvalidByteError\<close> at the first character that is no hex digit, and with
  \<open>ErrLength\<close> when a single character is left over.
\<close>

definition hextable :: string where
  "hextable = ''0123456789abcdef''"

fun hex_EncodeToString :: "bytes \<Rightarrow> string" where
  "hex_EncodeToString [] = []"
| "hex_EncodeToString (v # vs) =
     hextable ! unat (drop_bit 4 v) # hextable ! unat (v AND 0x0f) # hex_EncodeToString vs"

definition fromHexChar :: "char \<Rightarrow> byte option" where
  "fromHexChar c =
     (let n = (of_char c :: nat) in
      if 48 \<le> n \<and> n \<le> 57 then Some (of_nat (n - 48))
      else if 97 \<le> n \<and> n \<le> 102 then Some (of_nat (n - 97 + 10))
      else if 65 \<le> n \<and> n \<le> 70 then Some (of_nat (n - 65 + 10))
      else None)"

fun hex_DecodeString :: "string \<Rightarrow> error + bytes" where
  "hex_DecodeString [] = Inr []"
| "hex_DecodeString [p] =
     (case fromHexChar p of None \<Rightarrow> Inl (InvalidByteError p) | Some a \<Rightarrow> Inl ErrLength)"
| "hex_DecodeString (p # q # s) =
     (case fromHexChar p of
        None \<Rightarrow> Inl (InvalidByteError p)
      | Some a \<Rightarrow>
         (case fromHexChar q of
            None \<Rightarrow> Inl (InvalidByteError q)
          | Some b \<Rightarrow>
             (case hex_DecodeString s of
                Inl e \<Rightarrow> Inl e
              | Inr vs \<Rightarrow> Inr ((push_bit 4 a OR b) # vs))))"

text \<open>
  The two hex digits of a byte, by position in the encoded string: position \<open>i\<close> of the
  string holds the high nibble of byte \<open>i div 2\<close> when \<open>i\<close> is even and its low nibble
  when \<open>i\<close> is odd. \<open>set_nibble b i v\<close> is the byte \<open>b\<close> with that nibble replaced.
\<close>

definition nibble_at :: "bytes \<Rightarrow> nat \<Rightarrow> byte" where
  "nibble_at m i = (if even i then drop_bit 4 (m ! (i div 2)) else m ! (i div 2) AND 0x0f)"

definition set_nibble :: "byte \<Rightarrow> nat \<Rightarrow> byte \<Rightarrow> byte" where
  "set_nibble b i v =
     (if even i then push_bit 4 v OR (b AND 0x0f) else push_bit 4 (drop_bit 4 b) OR v)"

text \<open>A single-bit modification of a byte of an envelope and of a character of a signature.\<close>

definition flip_byte_bit :: "nat \<Rightarrow> byte \<Rightarrow> byte" where
  "flip_byte_bit j b = b XOR push_bit j 1"

definition flip_char_bit :: "nat \<Rightarrow> char \<Rightarrow> char" where
  "flip_char_bit j c = char_of ((of_char c :: nat) XOR push_bit j 1)"

text \<open>
  \<open>sha256HexRegexp\<close> is \<open>^[a-f0-9]{64}$\<close>: exactly 64 characters, each a digit or a
  lower-case letter \<open>a\<close>..\<open>f\<close>. (In Go's syntax \<open>$\<close> without the \<open>m\<close> flag is the end
  of the text.)
\<close>

definition lower_hex_char :: "char \<Rightarrow> bool" where
  "lower_hex_char c =
     (let n = (of_char c :: nat) in (97 \<le> n \<and> n \<le> 102) \<or> (48 \<le> n \<and> n \<le> 57))"

definition sha256HexRegexp_MatchString :: "string \<Rightarrow> bool" where
  "sha256HexRegexp_MatchString s = (length s = 64 \<and> list_all lower_hex_char s)"

section \<open>crypto/cipher: CFB mode over a block cipher\<close>

text \<open>
  A 16-byte block is a 128-bit word, its first byte the most significant. The block
  cipher itself is a parameter (see \<open>lib\<close> below); CFB only ever uses its encrypting
  direction.

  \<open>XORKeyStream\<close> of a fresh CFB stream, as \<open>cipher.NewCFBEncrypter\<close> and
  \<open>cipher.NewCFBDecrypter\<close> build it: for every chunk of at most 16 bytes the block
  \<open>next\<close> is encrypted to give the key stream \<open>out\<close>, the chunk is XORed with it, and
  the ciphertext of the chunk (the input when decrypting, the output when encrypting)
  is copied over the start of \<open>next\<close>.
\<close>

definition BlockSize :: nat where
  "BlockSize = 16"

definition block_of_bytes :: "bytes \<Rightarrow> 128 word" where
  "block_of_bytes bs = foldl (\<lambda>acc b. push_bit 8 acc OR ucast b) 0 bs"

definition bytes_of_block :: "128 word \<Rightarrow> bytes" where
  "bytes_of_block w = map (\<lambda>i. ucast (drop_bit (8 * (15 - i)) w)) [0..<16]"

definition XORBytes :: "bytes \<Rightarrow> bytes \<Rightarrow> bytes" where
  "XORBytes src out = map2 (XOR) src out"

fun XORKeyStream :: "(128 word \<Rightarrow> 128 word) \<Rightarrow> bool \<Rightarrow> bytes \<Rightarrow> bytes \<Rightarrow> bytes" where
  "XORKeyStream blk decrypt next [] = []"
| "XORKeyStream blk decrypt next (s # src) =
     (let out = bytes_of_block (blk (block_of_bytes next));
          chunk = take 16 (s # src);
          dst = XORBytes chunk out;
          n = length dst;
          next' = (if decrypt then chunk else dst) @ drop n next
      in dst @ XORKeyStream blk decrypt next' (drop 16 (s # src)))"

section \<open>archive/tar\<close>

text \<open>
  The fields of \<open>tar.Header\<close> that the package sets and reads. \<open>tr.Next()\<close> on a
  \<open>tar.Reader\<close> returns the header of the next entry, or a \<open>nil\<close> header with
  \<open>io.EOF\<close> at the end of the archive, or a \<open>nil\<close> header with another error. In
  \<open>TarEntry hdr body\<close>, \<open>body\<close> is what reading the entry delivers to \<open>io.Copy\<close>.
\<close>

record tar_header =
  hdr_Name :: string
  hdr_Mode :: int
  hdr_Size :: int
  hdr_ModTime :: int

datatype tar_next = TarEntry tar_header bytes | TarEOF | TarError error

section \<open>The libraries the package calls\<close>

text \<open>
  The package is glue around Go's standard library and \<open>golang.org/x/crypto/scrypt\<close>.
  The functions it calls whose code is not part of the repository are the fields of
  \<open>lib\<close>; every definition below takes the record as its first argument, and every
  theorem holds for all of them, under the hypotheses it states.
  \<^item> \<open>sha512_Sum512\<close>: \<open>sha512.Sum512\<close>.
  \<^item> \<open>scrypt_Key password salt N r p keyLen\<close>: \<open>scrypt.Key\<close>, which returns the key
    or an error.
  \<^item> \<open>aes_Encrypt key\<close>: the block encryption of the \<open>cipher.Block\<close> that
    \<open>aes.NewCipher key\<close> returns.
  \<^item> \<open>gzip_compress\<close>: \<open>gzip.NewWriterLevel\<close> at \<open>gzip.BestCompression\<close>, \<open>Write\<close>
    and \<open>Close\<close> into a buffer, any of which may return an error.
  \<^item> \<open>gzip_decompress\<close>: \<open>gzip.NewReader\<close> and \<open>ioutil.ReadAll\<close>.
  \<^item> \<open>hmac_sha256 key msg\<close>: \<open>hmac.New(sha256.New, key)\<close>, \<open>Write(msg)\<close>,
    \<open>Sum(nil)\<close>.
  \<^item> \<open>tar_archive hdr data\<close>: \<open>tar.NewWriter\<close> on a buffer, \<open>WriteHeader(hdr)\<close>,
    \<open>Write(data)\<close> and \<open>Close\<close>, any of which may return an error; the result is the
    buffer.
  \<^item> \<open>tar_Next\<close>: \<open>tar.NewReader\<close> on the bytes and its first \<open>Next()\<close>.
  \<^item> \<open>filepath_Base\<close>, \<open>filepath_Dir\<close>, \<open>filepath_Join\<close>: the functions of
    \<open>path/filepath\<close>.
\<close>

record lib =
  sha512_Sum512 :: "bytes \<Rightarrow> bytes"
  scrypt_Key :: "bytes \<Rightarrow> bytes \<Rightarrow> nat \<Rightarrow> nat \<Rightarrow> nat \<Rightarrow> nat \<Rightarrow> error + bytes"
  aes_Encrypt :: "bytes \<Rightarrow> 128 word \<Rightarrow> 128 word"
  gzip_compress :: "bytes \<Rightarrow> error + bytes"
  gzip_decompress :: "bytes \<Rightarrow> error + bytes"
  hmac_sha256 :: "bytes \<Rightarrow> bytes \<Rightarrow> bytes"
  tar_archive :: "tar_header \<Rightarrow> bytes \<Rightarrow> error + bytes"
  tar_Next :: "bytes \<Rightarrow> tar_next"
  filepath_Base :: "string \<Rightarrow> string"
  filepath_Dir :: "string \<Rightarrow> string"
  filepath_Join :: "string \<Rightarrow> string \<Rightarrow> string"

text \<open>
  \<open>aes.NewCipher\<close> accepts keys of 16, 24 and 32 bytes and fails with
  \<open>KeySizeError\<close> on every other length. \<open>hmac.Equal\<close> compares two MACs in constant
  time: it is true exactly when they have the same length and the same bytes.
  \<open>io.ReadFull(rand.Reader, iv)\<close> fills \<open>iv\<close> or fails; the random source is the
  list of bytes it has left to deliver.
\<close>

definition aes_NewCipher :: "lib \<Rightarrow> bytes \<Rightarrow> error + (128 word \<Rightarrow> 128 word)" where
  "aes_NewCipher L key =
     (if length key = 16 \<or> length key = 24 \<or> length key = 32
      then Inr (aes_Encrypt L key) else Inl (KeySizeError (length key)))"

definition hmac_Equal :: "bytes \<Rightarrow> bytes \<Rightarrow> bool" where
  "hmac_Equal mac1 mac2 = (length mac1 = length mac2 \<and> mac1 = mac2)"

definition io_ReadFull :: "bytes \<Rightarrow> nat \<Rightarrow> error + bytes" where
  "io_ReadFull rnd n =
     (if n \<le> length rnd then Inr (take n rnd)
      else if rnd = [] then Inl ErrEOF else Inl ErrUnexpectedEOF)"

section \<open>generate32ByteKey\<close>

text \<open>
  The constants of \<open>generate32ByteKey\<close>, as the source writes them. The error of
  \<open>scrypt.Key\<close> is discarded (\<open>key, _ := scrypt.Key(...)\<close>); with an error the key it
  returns is \<open>nil\<close>.
\<close>

definition scrypt_N :: nat where
  "scrypt_N = push_bit 10 16"

definition scrypt_r :: nat where
  "scrypt_r = 8"

definition scrypt_p :: nat where
  "scrypt_p = 1"

definition keyLen :: nat where
  "keyLen = 32"

definition generate32ByteKey :: "lib \<Rightarrow> bytes \<Rightarrow> bytes" where
  "generate32ByteKey L input =
     (let salt = sha512_Sum512 L input in
      case scrypt_Key L input salt scrypt_N scrypt_r scrypt_p keyLen of
        Inl e \<Rightarrow> []
      | Inr key \<Rightarrow> key)"

section \<open>Encrypt and Decrypt\<close>

text \<open>
  \<open>Encrypt L rnd data key\<close>: \<open>rnd\<close> is what \<open>rand.Reader\<close> delivers. The result is
  the error, or the envelope and its hex signature.
\<close>

definition Encrypt :: "lib \<Rightarrow> bytes \<Rightarrow> bytes \<Rightarrow> bytes \<Rightarrow> error + (bytes \<times> string)" where
  "Encrypt L rnd data key =
     (let aes256Key = generate32ByteKey L key in
      case aes_NewCipher L aes256Key of
        Inl e \<Rightarrow> Inl e
      | Inr block \<Rightarrow>
         (case gzip_compress L data of
            Inl e \<Rightarrow> Inl e
          | Inr buf \<Rightarrow>
             (case io_ReadFull rnd BlockSize of
                Inl e \<Rightarrow> Inl e
              | Inr iv \<Rightarrow>
                 (let ciphertext = iv @ XORKeyStream block False iv buf;
                      sig = hex_EncodeToString (hmac_sha256 L key ciphertext)
                  in Inr (ciphertext, sig)))))"

text \<open>
  \<open>Decrypt\<close> works on the caller's slice \<open>data\<close>: \<open>dectext\<close> is a sub-slice of it and
  \<open>XORKeyStream(dectext, dectext)\<close> writes into it. \<open>Decrypt_run\<close> therefore returns
  three things: the library calls made on the way, in order; the contents of \<open>data\<close>
  when the function returns; and the returned value.
\<close>

datatype call = HexDecode | HmacSum | DeriveKey | NewCipher | CFBXORKeyStream | Gunzip

definition Decrypt_run ::
  "lib \<Rightarrow> bytes \<Rightarrow> string \<Rightarrow> bytes \<Rightarrow> call list \<times> bytes \<times> (error + bytes)" where
  "Decrypt_run L data sig key =
     (if length data < BlockSize then ([], data, Inl ErrInsufficientData)
      else case hex_DecodeString sig of
        Inl e \<Rightarrow> ([HexDecode], data, Inl e)
      | Inr sig_mac \<Rightarrow>
         (let data_mac = hmac_sha256 L key data in
          if \<not> hmac_Equal sig_mac data_mac
          then ([HexDecode, HmacSum], data, Inl ErrSignatureMismatch)
          else
            (let aes256Key = generate32ByteKey L key in
             case aes_NewCipher L aes256Key of
               Inl e \<Rightarrow> ([HexDecode, HmacSum, DeriveKey, NewCipher], data, Inl e)
             | Inr block \<Rightarrow>
                (let iv = take BlockSize data;
                     dectext = XORKeyStream block True iv (drop BlockSize data)
                 in ([HexDecode, HmacSum, DeriveKey, NewCipher, CFBXORKeyStream, Gunzip],
                     iv @ dectext, gzip_decompress L dectext)))))"

definition Decrypt :: "lib \<Rightarrow> bytes \<Rightarrow> string \<Rightarrow> bytes \<Rightarrow> error + bytes" where
  "Decrypt L data sig key = snd (snd (Decrypt_run L data sig key))"

definition Decrypt_buffer :: "lib \<Rightarrow> bytes \<Rightarrow> string \<Rightarrow> bytes \<Rightarrow> bytes" where
  "Decrypt_buffer L data sig key = fst (snd (Decrypt_run L data sig key))"

definition Decrypt_calls :: "lib \<Rightarrow> bytes \<Rightarrow> string \<Rightarrow> bytes \<Rightarrow> call list" where
  "Decrypt_calls L data sig key = fst (Decrypt_run L data sig key)"

section \<open>The file system\<close>

text \<open>
  \<open>os.FileMode\<close> is a 32-bit word: the permission bits are the low nine, the type
  bits are the high ones, and \<open>os.ModeType\<close> is the mask the source's comment spells
  out. A regular file has none of the type bits.
\<close>

definition ModeDir :: "32 word" where
  "ModeDir = push_bit 31 1"

definition ModeSymlink :: "32 word" where
  "ModeSymlink = push_bit 27 1"

definition ModeDevice :: "32 word" where
  "ModeDevice = push_bit 26 1"

definition ModeNamedPipe :: "32 word" where
  "ModeNamedPipe = push_bit 25 1"

definition ModeSocket :: "32 word" where
  "ModeSocket = push_bit 24 1"

definition ModeType :: "32 word" where
  "ModeType = ModeDir OR ModeSymlink OR ModeNamedPipe OR ModeSocket OR ModeDevice"

definition ModePerm :: "32 word" where
  "ModePerm = 7 * 8 ^ 2 + 7 * 8 + 7"

definition perm_0400 :: "32 word" where
  "perm_0400 = 4 * 8 ^ 2"

text \<open>
  The file system is a map from paths to nodes. A node has its mode, its modification
  time, its contents (of a regular file) and its target (of a symbolic link, as the
  path the link resolves to). The world is what the package reads and writes besides
  its arguments: the files, the bytes the device still has room for, the bytes
  \<open>rand.Reader\<close> will deliver, and the time. Progress messages to \<open>LogOutput\<close> are not
  part of the model.
\<close>

record node =
  n_mode :: "32 word"
  n_mtime :: int
  n_data :: bytes
  n_target :: string

record world =
  w_files :: "string \<Rightarrow> node option"
  w_space :: nat
  w_entropy :: bytes
  w_clock :: int

record fileinfo =
  fi_name :: string
  fi_size :: int
  fi_mode :: "32 word"
  fi_modtime :: int

definition IsDir :: "fileinfo \<Rightarrow> bool" where
  "IsDir info = (fi_mode info AND ModeDir \<noteq> 0)"

definition stat_of :: "lib \<Rightarrow> string \<Rightarrow> node \<Rightarrow> fileinfo" where
  "stat_of L path n =
     \<lparr>fi_name = filepath_Base L path, fi_size = int (length (n_data n)),
      fi_mode = n_mode n, fi_modtime = n_mtime n\<rparr>"

text \<open>
  \<open>os.Lstat\<close> describes the node at the path itself. \<open>os.Stat\<close>, \<open>ioutil.ReadFile\<close>
  and \<open>os.Chtimes\<close> follow symbolic links first, through at most \<open>maxSymlinks\<close> of
  them.
\<close>

definition os_Lstat :: "lib \<Rightarrow> world \<Rightarrow> string \<Rightarrow> error + fileinfo" where
  "os_Lstat L W path =
     (case w_files W path of None \<Rightarrow> Inl ErrNotExist | Some n \<Rightarrow> Inr (stat_of L path n))"

fun follow :: "nat \<Rightarrow> (string \<Rightarrow> node option) \<Rightarrow> string \<Rightarrow> error + (string \<times> node)" where
  "follow 0 fs path = Inl ErrTooManyLinks"
| "follow (Suc k) fs path =
     (case fs path of
        None \<Rightarrow> Inl ErrNotExist
      | Some n \<Rightarrow>
          if n_mode n AND ModeSymlink \<noteq> 0 then follow k fs (n_target n) else Inr (path, n))"

definition maxSymlinks :: nat where
  "maxSymlinks = 40"

definition os_Stat :: "lib \<Rightarrow> world \<Rightarrow> string \<Rightarrow> error + fileinfo" where
  "os_Stat L W path =
     (case follow (Suc maxSymlinks) (w_files W) path of
        Inl e \<Rightarrow> Inl e
      | Inr (p, n) \<Rightarrow> Inr (stat_of L path n))"

definition ioutil_ReadFile :: "world \<Rightarrow> string \<Rightarrow> error + bytes" where
  "ioutil_ReadFile W path =
     (case follow (Suc maxSymlinks) (w_files W) path of
        Inl e \<Rightarrow> Inl e
      | Inr (p, n) \<Rightarrow> if n_mode n AND ModeDir \<noteq> 0 then Inl ErrIsDirectory else Inr (n_data n))"

text \<open>
  \<open>os.OpenFile\<close> with \<open>O_WRONLY|O_CREATE|O_EXCL|O_SYNC\<close>: it fails when anything, a
  symbolic link included, has the name already; otherwise it creates an empty regular
  file with the permission bits asked for (the process's umask is taken to be 0,
  and the directory of the path is taken to exist and to be writable).
  Writing to the open file appends what the device has room for and reports an error
  when that is not everything. \<open>Close\<close> is taken to succeed.
\<close>

definition os_OpenFile_excl :: "world \<Rightarrow> string \<Rightarrow> 32 word \<Rightarrow> error + world" where
  "os_OpenFile_excl W path perm =
     (case w_files W path of
        Some n \<Rightarrow> Inl ErrExist
      | None \<Rightarrow>
          Inr (W\<lparr>w_files := (w_files W)(path \<mapsto>
                 \<lparr>n_mode = perm AND ModePerm, n_mtime = w_clock W, n_data = [],
                  n_target = []\<rparr>)\<rparr>))"

definition file_Write :: "world \<Rightarrow> string \<Rightarrow> bytes \<Rightarrow> world \<times> nat \<times> error option" where
  "file_Write W path b =
     (case w_files W path of
        None \<Rightarrow> (W, 0, Some ErrNotExist)
      | Some n \<Rightarrow>
          (let k = min (length b) (w_space W)
           in (W\<lparr>w_files := (w_files W)(path \<mapsto> n\<lparr>n_data := n_data n @ take k b\<rparr>),
                 w_space := w_space W - k\<rparr>,
               k, if k < length b then Some ErrNoSpace else None)))"

definition os_Chtimes :: "world \<Rightarrow> string \<Rightarrow> int \<Rightarrow> error + world" where
  "os_Chtimes W path mtime =
     (case follow (Suc maxSymlinks) (w_files W) path of
        Inl e \<Rightarrow> Inl e
      | Inr (p, n) \<Rightarrow> Inr (W\<lparr>w_files := (w_files W)(p \<mapsto> n\<lparr>n_mtime := mtime\<rparr>)\<rparr>))"

definition os_Remove :: "world \<Rightarrow> string \<Rightarrow> error + world" where
  "os_Remove W path =
     (case w_files W path of
        None \<Rightarrow> Inl ErrNotExist
      | Some n \<Rightarrow> Inr (W\<lparr>w_files := (w_files W)(path := None)\<rparr>))"

section \<open>EncryptFile and DecryptFile\<close>

text \<open>
  Both return the world they leave behind and the returned value. \<open>EncryptFile\<close>
  draws the initialization vector from the world's random source; a failed \<open>Encrypt\<close>
  returns before anything is written.
\<close>

definition EncryptFile :: "lib \<Rightarrow> world \<Rightarrow> string \<Rightarrow> bytes \<Rightarrow> world \<times> (error + string)" where
  "EncryptFile L W path key =
     (case os_Stat L W path of
        Inl e \<Rightarrow> (W, Inl e)
      | Inr info \<Rightarrow>
          if fi_mode info AND ModeType \<noteq> 0 then (W, Inl ErrInvalidFileType)
          else case ioutil_ReadFile W path of
            Inl e \<Rightarrow> (W, Inl e)
          | Inr data \<Rightarrow>
             (let hdr = \<lparr>hdr_Name = fi_name info, hdr_Mode = uint (fi_mode info),
                         hdr_Size = fi_size info, hdr_ModTime = fi_modtime info\<rparr>
              in case tar_archive L hdr data of
                Inl e \<Rightarrow> (W, Inl e)
              | Inr buf \<Rightarrow>
                 (case Encrypt L (w_entropy W) buf key of
                    Inl e \<Rightarrow> (W, Inl e)
                  | Inr (encrypted_data, sig) \<Rightarrow>
                     (let W1 = W\<lparr>w_entropy := drop BlockSize (w_entropy W)\<rparr>;
                          new_file_path = filepath_Join L (filepath_Dir L path) sig
                      in case os_OpenFile_excl W1 new_file_path perm_0400 of
                        Inl e \<Rightarrow> (W1, Inl e)
                      | Inr W2 \<Rightarrow>
                         (case file_Write W2 new_file_path encrypted_data of
                            (W3, n, Some e) \<Rightarrow> (W3, Inl e)
                          | (W3, n, None) \<Rightarrow>
                              if n \<noteq> length encrypted_data then (W3, Inl ErrShortWrite)
                              else (W3, Inr new_file_path))))))"

text \<open>
  In \<open>DecryptFile\<close>, \<open>tr.Next()\<close> at the end of the archive returns a \<open>nil\<close> header
  and \<open>io.EOF\<close>; the check \<open>err != nil && err != io.EOF\<close> lets it pass, and the next
  statement reads \<open>hdr.Name\<close> of the \<open>nil\<close> header, which panics.
\<close>

definition DecryptFile :: "lib \<Rightarrow> world \<Rightarrow> string \<Rightarrow> bytes \<Rightarrow> world \<times> (error + string)" where
  "DecryptFile L W path key =
     (if \<not> sha256HexRegexp_MatchString (filepath_Base L path)
      then (W, Inl ErrInvalidFileName)
      else case os_Stat L W path of
        Inl e \<Rightarrow> (W, Inl e)
      | Inr info \<Rightarrow>
          if fi_mode info AND ModeType \<noteq> 0 then (W, Inl ErrInvalidFileType)
          else case ioutil_ReadFile W path of
            Inl e \<Rightarrow> (W, Inl e)
          | Inr data \<Rightarrow>
             (let sig = filepath_Base L path
              in case Decrypt L data sig key of
                Inl e \<Rightarrow> (W, Inl e)
              | Inr dec_data \<Rightarrow>
                 (case tar_Next L dec_data of
                    TarError e \<Rightarrow> (W, Inl e)
                  | TarEOF \<Rightarrow> (W, Inl PanicNilDereference)
                  | TarEntry hdr body \<Rightarrow>
                     (let orig_file_path = filepath_Join L (filepath_Dir L path) (hdr_Name hdr)
                      in case os_OpenFile_excl W orig_file_path (word_of_int (hdr_Mode hdr)) of
                        Inl e \<Rightarrow> (W, Inl e)
                      | Inr W1 \<Rightarrow>
                         (case file_Write W1 orig_file_path body of
                            (W2, n, Some e) \<Rightarrow> (W2, Inl e)
                          | (W2, n, None) \<Rightarrow>
                              if int n \<noteq> hdr_Size hdr then (W2, Inl ErrShortWrite)
                              else case os_Chtimes W2 orig_file_path (hdr_ModTime hdr) of
                                Inl e \<Rightarrow> (W2, Inl e)
                              | Inr W3 \<Rightarrow> (W3, Inr orig_file_path))))))"

section \<open>EncryptDirFiles and DecryptDirFiles\<close>

text \<open>
  \<open>filepath.Walk\<close> calls the function it is given once for every path it reaches,
  with the \<open>os.Lstat\<close> of the path taken at that moment, or with a \<open>nil\<close>
  \<open>FileInfo\<close> and the error when \<open>Lstat\<close> fails, and stops at the first error the
  function returns. \<open>filepath_Walk\<close> takes the paths that are reached, in order, as its
  last argument. Both functions of the package ignore the error argument and call a
  method of \<open>info\<close> first, which panics on a \<open>nil\<close> \<open>FileInfo\<close>.
\<close>

fun filepath_Walk ::
  "lib \<Rightarrow> (world \<Rightarrow> string \<Rightarrow> fileinfo option \<Rightarrow> world \<times> error option) \<Rightarrow>
   world \<Rightarrow> string list \<Rightarrow> world \<times> error option" where
  "filepath_Walk L walkFn W [] = (W, None)"
| "filepath_Walk L walkFn W (path # paths) =
     (let info = (case os_Lstat L W path of Inl e \<Rightarrow> None | Inr i \<Rightarrow> Some i)
      in case walkFn W path info of
        (W1, Some e) \<Rightarrow> (W1, Some e)
      | (W1, None) \<Rightarrow> filepath_Walk L walkFn W1 paths)"

definition EncryptDirFiles_walkFn ::
  "lib \<Rightarrow> bytes \<Rightarrow> world \<Rightarrow> string \<Rightarrow> fileinfo option \<Rightarrow> world \<times> error option" where
  "EncryptDirFiles_walkFn L key W path info =
     (case info of
        None \<Rightarrow> (W, Some PanicNilDereference)
      | Some i \<Rightarrow>
          if fi_mode i AND ModeType \<noteq> 0 then (W, None)
          else case EncryptFile L W path key of
            (W1, Inl e) \<Rightarrow> (W1, Some e)
          | (W1, Inr new_path) \<Rightarrow>
             (case os_Remove W1 path of
                Inl e \<Rightarrow> (W1, Some e)
              | Inr W2 \<Rightarrow> (W2, None)))"

definition EncryptDirFiles :: "lib \<Rightarrow> world \<Rightarrow> string list \<Rightarrow> bytes \<Rightarrow> world \<times> error option" where
  "EncryptDirFiles L W reached key = filepath_Walk L (EncryptDirFiles_walkFn L key) W reached"

definition DecryptDirFiles_walkFn ::
  "lib \<Rightarrow> bytes \<Rightarrow> world \<Rightarrow> string \<Rightarrow> fileinfo option \<Rightarrow> world \<times> error option" where
  "DecryptDirFiles_walkFn L key W path info =
     (case info of
        None \<Rightarrow> (W, Some PanicNilDereference)
      | Some i \<Rightarrow>
          if IsDir i then (W, None)
          else if \<not> sha256HexRegexp_MatchString (filepath_Base L path) then (W, None)
          else case DecryptFile L W path key of
            (W1, Inl e) \<Rightarrow> (W1, Some e)
          | (W1, Inr orig_path) \<Rightarrow>
             (case os_Remove W1 path of
                Inl e \<Rightarrow> (W1, Some e)
              | Inr W2 \<Rightarrow> (W2, None)))"

definition DecryptDirFiles :: "lib \<Rightarrow> world \<Rightarrow> string list \<Rightarrow> bytes \<Rightarrow> world \<times> error option" where
  "DecryptDirFiles L W reached key = filepath_Walk L (DecryptDirFiles_walkFn L key) W reached"

section \<open>What the theorems assume of the libraries\<close>

text \<open>
  The contracts of the library functions that some theorem needs, each stated as a
  predicate on \<open>lib\<close>, so that a theorem names exactly the ones it rests on.
  \<^item> \<open>gzip_roundtrip\<close>: decompressing what the compressor wrote gives the input back.
  \<^item> \<open>hmac_size\<close>: an HMAC-SHA-256 is \<open>sha256.Size\<close> = 32 bytes.
  \<^item> \<open>sha512_size\<close>: \<open>sha512.Sum512\<close> returns a \<open>[64]byte\<close>.
  \<^item> \<open>scrypt_contract\<close>: \<open>scrypt.Key\<close> returns a key of \<open>keyLen\<close> bytes whenever its
    cost parameters pass its own check, which \<open>scrypt_params_ok\<close> writes out:
    \<open>N\<close> a power of two greater than 1, \<open>r * p < 2^30\<close>, and the buffer sizes within
    \<open>maxInt\<close>. The contract is stated for the \<open>maxInt\<close> of a 32-bit platform; the
    check of a 64-bit platform accepts more.
\<close>

definition gzip_roundtrip :: "lib \<Rightarrow> bool" where
  "gzip_roundtrip L =
     (\<forall>data z. gzip_compress L data = Inr z \<longrightarrow> gzip_decompress L z = Inr data)"

definition hmac_size :: "lib \<Rightarrow> bool" where
  "hmac_size L = (\<forall>key msg. length (hmac_sha256 L key msg) = 32)"

definition sha512_size :: "lib \<Rightarrow> bool" where
  "sha512_size L = (\<forall>input. length (sha512_Sum512 L input) = 64)"

definition scrypt_params_ok :: "nat \<Rightarrow> nat \<Rightarrow> nat \<Rightarrow> nat \<Rightarrow> bool" where
  "scrypt_params_ok maxInt N r p =
     (\<not> (N \<le> 1 \<or> N AND (N - 1) \<noteq> 0) \<and>
      \<not> (2 ^ 30 \<le> r * p \<or> maxInt div 128 div p < r \<or> maxInt div 256 < r \<or>
         maxInt div 128 div r < N))"

definition scrypt_contract :: "lib \<Rightarrow> bool" where
  "scrypt_contract L =
     (\<forall>password salt N r p n. scrypt_params_ok (2 ^ 31 - 1) N r p \<longrightarrow>
        (\<exists>key. scrypt_Key L password salt N r p n = Inr key \<and> length key = n))"

section \<open>A stand-in library\<close>

text \<open>
  Small functions in place of the real libraries, used only to instantiate the
  theorems at concrete inputs: a compressor that prepends one byte, a block function
  that adds one, a MAC that sums the bytes of key and message, a key derivation that
  repeats the length of the password, an archive that is the length of the name, the
  name and the contents (its reader gives every entry the mode 0644), and paths cut
  and joined at \<open>/\<close>.
\<close>

definition stand_in :: lib where
  "stand_in =
     \<lparr>sha512_Sum512 = (\<lambda>input. replicate 64 (of_nat (length input))),
      scrypt_Key = (\<lambda>password salt N r p n. Inr (replicate n (of_nat (length password)))),
      aes_Encrypt = (\<lambda>key b. b + 1),
      gzip_compress = (\<lambda>data. Inr (0x1f # data)),
      gzip_decompress =
        (\<lambda>z. case z of
               [] \<Rightarrow> Inl ErrEOF
             | m # data \<Rightarrow>
                 if m = 0x1f then Inr data else Inl (LibraryError ''gzip: invalid header'')),
      hmac_sha256 = (\<lambda>key msg. replicate 31 0 @ [fold (+) (key @ msg) 0]),
      tar_archive =
        (\<lambda>hdr data. Inr (of_nat (length (hdr_Name hdr)) # map of_char (hdr_Name hdr) @ data)),
      tar_Next =
        (\<lambda>b. case b of
               [] \<Rightarrow> TarEOF
             | n # rest \<Rightarrow>
                 if length rest < unat n then TarError ErrUnexpectedEOF
                 else TarEntry
                   \<lparr>hdr_Name = map (\<lambda>c. char_of (unat c)) (take (unat n) rest),
                    hdr_Mode = 420,
                    hdr_Size = int (length (drop (unat n) rest)),
                    hdr_ModTime = 0\<rparr>
                   (drop (unat n) rest)),
      filepath_Base = (\<lambda>p. rev (takeWhile (\<lambda>c. c \<noteq> CHR ''/'') (rev p))),
      filepath_Dir =
        (\<lambda>p. let d = rev (drop 1 (dropWhile (\<lambda>c. c \<noteq> CHR ''/'') (rev p)))
             in if d = [] then ''.'' else d),
      filepath_Join = (\<lambda>d n. d @ ''/'' @ n)\<rparr>"

section \<open>Concrete worlds\<close>

text \<open>
  Small file systems for the stand-in library. \<open>notes_artifact\<close> is the envelope that
  \<open>EncryptFile\<close> writes for \<open>d/notes.txt\<close> in \<open>world_notes\<close>; its signature ends in
  \<open>76\<close>. The file of \<open>world_empty_archive\<close> is the envelope of the empty plaintext,
  whose signature ends in \<open>ef\<close>. In \<open>world_symlink\<close> the artifact lies in the directory
  \<open>s\<close>, and the directory \<open>d\<close> holds a symbolic link to it under the same name.
\<close>

definition demo_key :: bytes where
  "demo_key = [107, 101, 121]"

definition demo_entropy :: bytes where
  "demo_entropy = [1, 2, 3, 4, 5, 6, 7, 8, 9, 10, 11, 12, 13, 14, 15, 16, 17, 18, 19, 20, 21, 22, 23, 24, 25, 26, 27, 28, 29, 30, 31, 32]"

definition notes_artifact :: bytes where
  "notes_artifact = [1, 2, 3, 4, 5, 6, 7, 8, 9, 10, 11, 12, 13, 14, 15, 16, 30, 11, 109, 107, 113, 99, 116, 38, 125, 114, 127, 100, 100]"

definition dir_node :: node where
  "dir_node = \<lparr>n_mode = ModeDir OR 493, n_mtime = 1, n_data = [], n_target = []\<rparr>"

definition world_notes :: world where
  "world_notes =
     \<lparr>w_files = [''d'' \<mapsto> dir_node,
                  ''d/notes.txt'' \<mapsto> \<lparr>n_mode = 420, n_mtime = 2, n_data = [104, 105], n_target = []\<rparr>],
      w_space = 1000, w_entropy = demo_entropy, w_clock = 5\<rparr>"

definition world_artifact :: world where
  "world_artifact =
     \<lparr>w_files = [''d'' \<mapsto> dir_node,
                  ''d/0000000000000000000000000000000000000000000000000000000000000076'' \<mapsto>
                     \<lparr>n_mode = 256, n_mtime = 5, n_data = notes_artifact, n_target = []\<rparr>],
      w_space = 1000, w_entropy = demo_entropy, w_clock = 7\<rparr>"

definition world_empty_archive :: world where
  "world_empty_archive =
     \<lparr>w_files = [''d'' \<mapsto> dir_node,
                  ''d/00000000000000000000000000000000000000000000000000000000000000ef'' \<mapsto>
                     \<lparr>n_mode = 256, n_mtime = 5,
                      n_data = [1, 2, 3, 4, 5, 6, 7, 8, 9, 10, 11, 12, 13, 14, 15, 16, 30],
                      n_target = []\<rparr>],
      w_space = 1000, w_entropy = demo_entropy, w_clock = 7\<rparr>"

definition world_symlink :: world where
  "world_symlink =
     \<lparr>w_files = [''d'' \<mapsto> dir_node, ''s'' \<mapsto> dir_node,
                  ''s/0000000000000000000000000000000000000000000000000000000000000076'' \<mapsto>
                     \<lparr>n_mode = 256, n_mtime = 5, n_data = notes_artifact, n_target = []\<rparr>,
                  ''d/0000000000000000000000000000000000000000000000000000000000000076'' \<mapsto>
                     \<lparr>n_mode = ModeSymlink OR 511, n_mtime = 6, n_data = [],
                      n_target = ''s/0000000000000000000000000000000000000000000000000000000000000076''\<rparr>],
      w_space = 1000, w_entropy = demo_entropy, w_clock = 7\<rparr>"

section \<open>Helper facts\<close>

subsection \<open>Hex\<close>

lemma fromHexChar_hextable:
  assumes "n < 16"
  shows "fromHexChar (hextable ! n) = Some (of_nat n)"
proof -
  have "list_all (\<lambda>k. fromHexChar (hextable ! k) = Some (of_nat k)) [0..<16]"
    by code_simp
  with assms show ?thesis by (simp add: list_all_iff)
qed

lemma lower_hex_hextable:
  assumes "n < 16"
  shows "lower_hex_char (hextable ! n)"
proof -
  have "list_all (\<lambda>k. lower_hex_char (hextable ! k)) [0..<16]"
    by code_simp
  with assms show ?thesis by (simp add: list_all_iff)
qed

lemma unat_hi_nibble: "unat (drop_bit 4 (v::byte)) < 16"
proof -
  have "unat v < 256" using unsigned_less [of v, where 'a = nat] by simp
  then have "unat v div 16 < 16" by arith
  then show ?thesis by (simp add: unat_drop_bit_eq drop_bit_eq_div unat_div)
qed

lemma unat_lo_nibble: "unat ((v::byte) AND 0x0f) < 16"
proof -
  have "unat (v AND 15) \<le> unat (15 :: byte)"
    by (rule word_and_le1 [THEN word_le_nat_alt [THEN iffD1]])
  then show ?thesis by simp
qed

lemma nibbles_join: "push_bit 4 (drop_bit 4 (v::byte)) OR (v AND 0x0f) = v"
proof -
  have m: "(0x0f::byte) = mask 4" by (simp add: mask_eq_exp_minus_1)
  show ?thesis unfolding m
    by (rule bit_word_eqI) (auto simp: bit_simps)
qed

lemma hex_roundtrip: "hex_DecodeString (hex_EncodeToString bs) = Inr bs"
  by (induction bs)
     (simp_all add: fromHexChar_hextable unat_hi_nibble unat_lo_nibble nibbles_join)

lemma length_hex: "length (hex_EncodeToString bs) = 2 * length bs"
  by (induction bs) simp_all

lemma lower_hex_encode: "list_all lower_hex_char (hex_EncodeToString bs)"
  by (induction bs) (simp_all add: lower_hex_hextable unat_hi_nibble unat_lo_nibble)

text \<open>Decoding an encoded string in which one character was replaced.\<close>

lemma hex_nth:
  "i < 2 * length m \<Longrightarrow> hex_EncodeToString m ! i = hextable ! unat (nibble_at m i)"
proof (induction m arbitrary: i)
  case Nil then show ?case by simp
next
  case (Cons v vs)
  show ?case
  proof (cases i)
    case 0 then show ?thesis by (simp add: nibble_at_def)
  next
    case (Suc i1)
    show ?thesis
    proof (cases i1)
      case 0 with Suc show ?thesis by (simp add: nibble_at_def)
    next
      case (Suc k)
      with \<open>i = Suc i1\<close> Cons.prems have "k < 2 * length vs" by simp
      from Cons.IH [OF this] Suc \<open>i = Suc i1\<close> show ?thesis
        by (simp add: nibble_at_def)
    qed
  qed
qed

lemma unat_nibble_at: "unat (nibble_at m i) < 16"
  by (simp add: nibble_at_def unat_hi_nibble unat_lo_nibble)

lemma fromHexChar_hex_nth:
  "i < 2 * length m \<Longrightarrow> fromHexChar (hex_EncodeToString m ! i) = Some (nibble_at m i)"
  by (simp add: hex_nth fromHexChar_hextable unat_nibble_at)

lemma hex_decode_update:
  "i < 2 * length m \<Longrightarrow>
   hex_DecodeString ((hex_EncodeToString m)[i := c]) =
     (case fromHexChar c of
        None \<Rightarrow> Inl (InvalidByteError c)
      | Some v \<Rightarrow> Inr (m[i div 2 := set_nibble (m ! (i div 2)) i v]))"
proof (induction m arbitrary: i)
  case Nil then show ?case by simp
next
  case (Cons v vs)
  show ?case
  proof (cases i)
    case 0 then show ?thesis
      by (simp add: set_nibble_def fromHexChar_hextable unat_lo_nibble hex_roundtrip split: option.splits)
  next
    case (Suc i1)
    show ?thesis
    proof (cases i1)
      case 0 with Suc show ?thesis
        by (simp add: set_nibble_def fromHexChar_hextable unat_hi_nibble hex_roundtrip
            split: option.splits)
    next
      case (Suc k)
      with \<open>i = Suc i1\<close> Cons.prems have "k < 2 * length vs" by simp
      from Cons.IH [OF this] Suc \<open>i = Suc i1\<close> show ?thesis
        by (simp add: set_nibble_def fromHexChar_hextable unat_hi_nibble unat_lo_nibble nibbles_join split: option.splits)
    qed
  qed
qed

lemma small_byte: "k < 16 \<Longrightarrow> (of_nat k :: byte) < 16"
  by (simp add: word_less_nat_alt unat_of_nat)

lemma fromHexChar_lt:
  assumes "fromHexChar c = Some v"
  shows "v < 16"
proof -
  define n where "n = (of_char c :: nat)"
  have "\<exists>k<16. v = of_nat k"
  proof -
    consider "48 \<le> n \<and> n \<le> 57" | "97 \<le> n \<and> n \<le> 102" | "65 \<le> n \<and> n \<le> 70"
      | "\<not> (48 \<le> n \<and> n \<le> 57) \<and> \<not> (97 \<le> n \<and> n \<le> 102) \<and> \<not> (65 \<le> n \<and> n \<le> 70)"
      by blast
    then show ?thesis
    proof cases
      case 1
      then have "Some v = Some (of_nat (n - 48))"
        using assms unfolding fromHexChar_def Let_def n_def [symmetric] by simp
      then have "v = of_nat (n - 48)" by (simp only: option.inject)
      moreover have "n - 48 < 16" using 1 by arith
      ultimately show ?thesis by blast
    next
      case 2
      then have "Some v = Some (of_nat (n - 97 + 10))"
        using assms unfolding fromHexChar_def Let_def n_def [symmetric] by simp
      then have "v = of_nat (n - 97 + 10)" by (simp only: option.inject)
      moreover have "n - 97 + 10 < 16" using 2 by arith
      ultimately show ?thesis by blast
    next
      case 3
      then have "Some v = Some (of_nat (n - 65 + 10))"
        using assms unfolding fromHexChar_def Let_def n_def [symmetric] by simp
      then have "v = of_nat (n - 65 + 10)" by (simp only: option.inject)
      moreover have "n - 65 + 10 < 16" using 3 by arith
      ultimately show ?thesis by blast
    next
      case 4
      then have "fromHexChar c = None"
        unfolding fromHexChar_def Let_def n_def [symmetric] by auto
      then show ?thesis using assms by simp
    qed
  qed
  then show ?thesis using small_byte by blast
qed

lemma nibble_bits: "(v::byte) < 16 \<Longrightarrow> bit v n \<Longrightarrow> n < 4"
proof -
  assume a: "v < 16" "bit v n"
  have "v AND mask 4 = v" using a(1) by (intro less_mask_eq) simp
  then have "bit (v AND mask 4) n" using a(2) by simp
  then show ?thesis by (simp add: bit_simps)
qed

lemma m15: "(0x0f::byte) = mask 4" by (simp add: mask_eq_exp_minus_1)

lemma set_nibble_get_even:
  "(v::byte) < 16 \<Longrightarrow> drop_bit 4 (push_bit 4 v OR (b AND 0x0f)) = v"
  unfolding m15
  by (rule bit_word_eqI) (auto simp: bit_simps dest: nibble_bits)

lemma set_nibble_get_odd:
  "(v::byte) < 16 \<Longrightarrow> (push_bit 4 h OR v) AND 0x0f = v"
  unfolding m15
  by (rule bit_word_eqI) (auto simp: bit_simps dest: nibble_bits)

lemma set_nibble_same_iff:
  assumes "v < 16"
  shows "set_nibble b i v = b \<longleftrightarrow> v = (if even i then drop_bit 4 b else b AND 0x0f)"
proof (cases "even i")
  case True
  show ?thesis
  proof
    assume "set_nibble b i v = b"
    then have "drop_bit 4 (push_bit 4 v OR (b AND 0x0f)) = drop_bit 4 b"
      using True by (simp add: set_nibble_def)
    then show "v = (if even i then drop_bit 4 b else b AND 0x0f)"
      using True set_nibble_get_even [OF assms] by simp
  next
    assume "v = (if even i then drop_bit 4 b else b AND 0x0f)"
    then show "set_nibble b i v = b" using True by (simp add: set_nibble_def nibbles_join)
  qed
next
  case False
  show ?thesis
  proof
    assume "set_nibble b i v = b"
    then have "(push_bit 4 (drop_bit 4 b) OR v) AND 0x0f = b AND 0x0f"
      using False by (simp add: set_nibble_def)
    then show "v = (if even i then drop_bit 4 b else b AND 0x0f)"
      using False set_nibble_get_odd [OF assms] by simp
  next
    assume "v = (if even i then drop_bit 4 b else b AND 0x0f)"
    then show "set_nibble b i v = b" using False by (simp add: set_nibble_def nibbles_join)
  qed
qed

lemma hex_decode_flip:
  assumes "i < 2 * length m"
  shows "hex_DecodeString ((hex_EncodeToString m)[i := c]) =
     (case fromHexChar c of
        None \<Rightarrow> Inl (InvalidByteError c)
      | Some v \<Rightarrow>
          if fromHexChar (hex_EncodeToString m ! i) = Some v then Inr m
          else Inr (m[i div 2 := set_nibble (m ! (i div 2)) i v]))"
    and "fromHexChar c = Some v \<Longrightarrow> fromHexChar (hex_EncodeToString m ! i) \<noteq> Some v \<Longrightarrow>
         m[i div 2 := set_nibble (m ! (i div 2)) i v] \<noteq> m"
proof -
  have k: "i div 2 < length m" using assms by auto
  have same: "set_nibble (m ! (i div 2)) i v = m ! (i div 2) \<longleftrightarrow> nibble_at m i = v"
    if "fromHexChar c = Some v" for v
    using set_nibble_same_iff [OF fromHexChar_lt [OF that], of "m ! (i div 2)" i]
    by (auto simp: nibble_at_def)
  show "hex_DecodeString ((hex_EncodeToString m)[i := c]) =
     (case fromHexChar c of
        None \<Rightarrow> Inl (InvalidByteError c)
      | Some v \<Rightarrow>
          if fromHexChar (hex_EncodeToString m ! i) = Some v then Inr m
          else Inr (m[i div 2 := set_nibble (m ! (i div 2)) i v]))"
    using same by (auto simp: hex_decode_update [OF assms] fromHexChar_hex_nth [OF assms] split: option.splits)
  show "m[i div 2 := set_nibble (m ! (i div 2)) i v] \<noteq> m"
    if "fromHexChar c = Some v" "fromHexChar (hex_EncodeToString m ! i) \<noteq> Some v"
  proof
    assume "m[i div 2 := set_nibble (m ! (i div 2)) i v] = m"
    then have "m[i div 2 := set_nibble (m ! (i div 2)) i v] ! (i div 2) = m ! (i div 2)" by simp
    then have "set_nibble (m ! (i div 2)) i v = m ! (i div 2)" using k by simp
    with same [OF that(1)] that(2) show False by (simp add: fromHexChar_hex_nth [OF assms])
  qed
qed


text \<open>Flipping the top bit of a lower-case hex digit gives a character that is no hex digit.\<close>

lemma xor_exp_above:
  assumes "(n::nat) < 2 ^ k"
  shows "n XOR push_bit k 1 = n + 2 ^ k"
proof -
  have "take_bit k n = n" using assms by (simp add: take_bit_nat_eq_self)
  then have "bit n k = bit (take_bit k n) k" by simp
  then have nb: "\<not> bit n k" by (simp add: bit_take_bit_iff)
  have "n XOR push_bit k 1 = flip_bit k n" by (simp add: flip_bit_eq_xor)
  also have "\<dots> = set_bit k n" using nb by (simp add: flip_bit_eq_if)
  also have "\<dots> = n + 2 ^ k" using nb by (simp add: set_bit_eq)
  finally show ?thesis .
qed

lemma flip_top_bit_not_hex:
  assumes "lower_hex_char c"
  shows "fromHexChar (flip_char_bit 7 c) = None"
proof -
  define n where "n = (of_char c :: nat)"
  have n: "n < 128" using assms unfolding lower_hex_char_def Let_def n_def [symmetric] by auto
  have "n < 2 ^ 7" using n by simp
  from xor_exp_above [OF this] have x: "n XOR push_bit 7 1 = n + 128" by simp
  have "of_char (flip_char_bit 7 c) = (n XOR push_bit 7 1) mod 256"
    unfolding flip_char_bit_def n_def by (simp only: of_char_of)
  also have "\<dots> = n + 128" unfolding x using n by simp
  finally have "(of_char (flip_char_bit 7 c) :: nat) = n + 128" .
  then show ?thesis by (simp add: fromHexChar_def Let_def)
qed

subsection \<open>CFB\<close>

lemma length_bytes_of_block: "length (bytes_of_block w) = 16"
  by (simp add: bytes_of_block_def)

lemma length_XORBytes: "length (XORBytes a b) = min (length a) (length b)"
  by (simp add: XORBytes_def)

lemma length_XORKeyStream: "length (XORKeyStream blk d nxt src) = length src"
  by (induction blk d nxt src rule: XORKeyStream.induct)
     (simp_all add: Let_def length_XORBytes length_bytes_of_block)

lemma XORBytes_twice: "length a \<le> length b \<Longrightarrow> XORBytes (XORBytes a b) b = a"
  unfolding XORBytes_def
  by (induction a b rule: list_induct2') (simp_all add: xor.assoc)

text \<open>Decrypting a fresh CFB stream undoes encrypting one with the same block and IV.\<close>

lemma XORKeyStream_roundtrip:
  "XORKeyStream blk True nxt (XORKeyStream blk False nxt src) = src"
proof (induction blk False nxt src rule: XORKeyStream.induct)
  case (1 blk nxt)
  show ?case by simp
next
  case (2 blk nxt s src)
  define out where "out = bytes_of_block (blk (block_of_bytes nxt))"
  define chunk where "chunk = take 16 (s # src)"
  define dst where "dst = XORBytes chunk out"
  define rest where
    "rest = XORKeyStream blk False (dst @ drop (length dst) nxt) (drop 16 (s # src))"
  have lo: "length out = 16" by (simp add: out_def length_bytes_of_block)
  have lc: "length chunk = min 16 (Suc (length src))" by (simp add: chunk_def)
  have ld: "length dst = length chunk" by (simp add: dst_def length_XORBytes lo lc)
  have enc: "XORKeyStream blk False nxt (s # src) = dst @ rest"
    by (simp add: Let_def out_def chunk_def dst_def rest_def)
  have "dst \<noteq> []" using ld lc by auto
  then obtain d ds where dd: "dst = d # ds" by (cases dst) auto
  have lr: "length rest = length (drop 16 (s # src))"
    by (simp add: rest_def length_XORKeyStream)
  have short: "rest = []" if "length dst \<noteq> 16"
  proof -
    from that have "length (s # src) < 16" using ld lc by auto
    then show ?thesis using lr by simp
  qed
  have tk: "take 16 (dst @ rest) = dst"
    using short ld lc by (cases "length dst = 16") simp_all
  have dr: "drop 16 (dst @ rest) = rest"
    using short ld lc by (cases "length dst = 16") simp_all
  have xx: "XORBytes dst out = chunk" unfolding dst_def
    by (rule XORBytes_twice) (simp add: lo lc)
  have IH: "XORKeyStream blk True (dst @ drop (length dst) nxt) rest = drop 16 (s # src)"
    unfolding rest_def dst_def chunk_def out_def
    using 2 [OF refl refl refl refl refl] by simp
  have "XORKeyStream blk True nxt (dst @ rest) = chunk @ drop 16 (s # src)"
    unfolding dd append_Cons XORKeyStream.simps Let_def
    unfolding dd [symmetric] append_Cons [symmetric] tk dr out_def [symmetric] xx
    using IH ld by simp
  then show ?case unfolding enc by (simp add: chunk_def)
qed

subsection \<open>Encrypt\<close>

lemma Encrypt_InrD:
  assumes "Encrypt L rnd P S = Inr (E, g)"
  shows "\<exists>z. length (generate32ByteKey L S) \<in> {16, 24, 32} \<and>
     gzip_compress L P = Inr z \<and> 16 \<le> length rnd \<and>
     E = take 16 rnd @
         XORKeyStream (aes_Encrypt L (generate32ByteKey L S)) False (take 16 rnd) z \<and>
     g = hex_EncodeToString (hmac_sha256 L S E)"
  using assms
  by (auto simp: Encrypt_def Let_def aes_NewCipher_def io_ReadFull_def BlockSize_def
      split: sum.splits if_splits)

lemma scrypt_constants_ok: "scrypt_params_ok (2 ^ 31 - 1) scrypt_N scrypt_r scrypt_p"
  by (simp add: scrypt_params_ok_def scrypt_N_def scrypt_r_def scrypt_p_def)

lemma generate32ByteKey_length:
  assumes "scrypt_contract L"
  shows "length (generate32ByteKey L secret) = 32"
proof -
  from assms scrypt_constants_ok obtain key where
    k: "scrypt_Key L secret (sha512_Sum512 L secret) scrypt_N scrypt_r scrypt_p keyLen =
        Inr key"
    and l: "length key = keyLen"
    unfolding scrypt_contract_def by blast
  show ?thesis by (simp add: generate32ByteKey_def Let_def k l keyLen_def [symmetric])
qed

subsection \<open>Decrypt\<close>

lemma Decrypt_run_authentic:
  assumes "16 \<le> length E" and "hex_DecodeString g = Inr (hmac_sha256 L S E)"
    and "length (generate32ByteKey L S) \<in> {16, 24, 32}"
  shows "Decrypt_run L E g S =
     ([HexDecode, HmacSum, DeriveKey, NewCipher, CFBXORKeyStream, Gunzip],
      take 16 E @
        XORKeyStream (aes_Encrypt L (generate32ByteKey L S)) True (take 16 E) (drop 16 E),
      gzip_decompress L
        (XORKeyStream (aes_Encrypt L (generate32ByteKey L S)) True (take 16 E) (drop 16 E)))"
  using assms
  by (auto simp: Decrypt_run_def BlockSize_def hmac_Equal_def aes_NewCipher_def Let_def)

lemma Decrypt_run_mismatch:
  assumes "16 \<le> length E" and "hex_DecodeString g = Inr mac"
    and "hmac_sha256 L S E \<noteq> mac"
  shows "Decrypt_run L E g S = ([HexDecode, HmacSum], E, Inl ErrSignatureMismatch)"
  using assms
  by (auto simp: Decrypt_run_def BlockSize_def hmac_Equal_def)

lemma Decrypt_authentic_roundtrip:
  assumes "gzip_roundtrip L" and "Encrypt L rnd P S = Inr (E, g)"
    and "hex_DecodeString g' = Inr (hmac_sha256 L S E)"
  shows "Decrypt L E g' S = Inr P"
proof -
  from Encrypt_InrD [OF assms(2)] obtain z where
    k: "length (generate32ByteKey L S) \<in> {16, 24, 32}" and
    z: "gzip_compress L P = Inr z" and r: "16 \<le> length rnd" and
    E: "E = take 16 rnd @
        XORKeyStream (aes_Encrypt L (generate32ByteKey L S)) False (take 16 rnd) z"
    by blast
  have l: "length (take 16 rnd) = 16" using r by simp
  have t: "take 16 E = take 16 rnd" unfolding E using l by simp
  have d: "drop 16 E =
      XORKeyStream (aes_Encrypt L (generate32ByteKey L S)) False (take 16 rnd) z"
    unfolding E using l by simp
  have le: "16 \<le> length E" unfolding E using l by simp
  have u: "gzip_decompress L z = Inr P" using assms(1) z by (simp add: gzip_roundtrip_def)
  show ?thesis
    unfolding Decrypt_def Decrypt_run_authentic [OF le assms(3) k]
    by (simp add: t d XORKeyStream_roundtrip u)
qed

text \<open>
  Whatever the libraries compute: flipping the top bit of any character of the
  signature that \<open>Encrypt\<close> returned makes \<open>Decrypt\<close> fail in the hex decoder.
\<close>

lemma Decrypt_signature_top_bit:
  assumes "Encrypt L rnd P S = Inr (E, g)" and "k < length g"
  shows "Decrypt L E (g[k := flip_char_bit 7 (g ! k)]) S =
     Inl (InvalidByteError (flip_char_bit 7 (g ! k)))"
proof -
  from Encrypt_InrD [OF assms(1)] obtain z where
    r: "16 \<le> length rnd" and
    E: "E = take 16 rnd @
        XORKeyStream (aes_Encrypt L (generate32ByteKey L S)) False (take 16 rnd) z" and
    g: "g = hex_EncodeToString (hmac_sha256 L S E)" by blast
  have le: "16 \<le> length E" unfolding E using r by simp
  have km: "k < 2 * length (hmac_sha256 L S E)"
    using assms(2) unfolding g by (simp add: length_hex)
  have "list_all lower_hex_char g" unfolding g by (rule lower_hex_encode)
  then have "lower_hex_char (g ! k)" using assms(2) by (simp add: list_all_length)
  then have n: "fromHexChar (flip_char_bit 7 (g ! k)) = None"
    by (rule flip_top_bit_not_hex)
  have "hex_DecodeString (g[k := flip_char_bit 7 (g ! k)]) =
      Inl (InvalidByteError (flip_char_bit 7 (g ! k)))"
    using hex_decode_flip(1) [OF km, of "flip_char_bit 7 (g ! k)"] n
    unfolding g [symmetric] by simp
  then show ?thesis using le
    by (simp add: Decrypt_def Decrypt_run_def BlockSize_def)
qed

subsection \<open>Files\<close>

lemma follow_InrD: "follow k fs p = Inr (q, n) \<Longrightarrow> fs q = Some n"
  by (induction k fs p rule: follow.induct) (auto split: option.splits if_splits)

lemma follow_exists: "follow k fs p = Inr (q, n) \<Longrightarrow> fs p \<noteq> None"
  by (cases k) (auto split: option.splits)

lemma perm_0400_masked: "perm_0400 AND ModePerm = perm_0400"
  by (simp add: perm_0400_def ModePerm_def)

lemma low_bits_disjoint: "9 \<le> k \<Longrightarrow> (x AND mask 9) AND push_bit k (1::32 word) = 0"
  by (rule bit_word_eqI) (auto simp: bit_simps)

lemma perm_not_symlink: "(x AND ModePerm) AND ModeSymlink = 0"
proof -
  have p: "ModePerm = mask 9" by (simp add: ModePerm_def mask_eq_exp_minus_1)
  show ?thesis unfolding p ModeSymlink_def by (rule low_bits_disjoint) simp
qed

lemma EncryptFile_InrD:
  assumes "EncryptFile L W path key = (W', Inr new_path)"
  shows "\<exists>info data buf E sig.
      os_Stat L W path = Inr info \<and> fi_mode info AND ModeType = 0 \<and>
      ioutil_ReadFile W path = Inr data \<and>
      tar_archive L \<lparr>hdr_Name = fi_name info, hdr_Mode = uint (fi_mode info),
                      hdr_Size = fi_size info, hdr_ModTime = fi_modtime info\<rparr> data = Inr buf \<and>
      Encrypt L (w_entropy W) buf key = Inr (E, sig) \<and>
      new_path = filepath_Join L (filepath_Dir L path) sig \<and>
      w_files W new_path = None \<and>
      w_files W' = (w_files W)(new_path \<mapsto>
         \<lparr>n_mode = perm_0400, n_mtime = w_clock W, n_data = E, n_target = []\<rparr>)"
  using assms
  by (auto simp: EncryptFile_def Let_def os_OpenFile_excl_def file_Write_def perm_0400_masked
      split: sum.splits if_splits option.splits prod.splits)

lemma EncryptFile_frame:
  assumes "EncryptFile L W path key = (W', r)" and "w_files W q = Some n"
  shows "w_files W' q = Some n"
  using assms
  by (auto simp: EncryptFile_def Let_def os_OpenFile_excl_def file_Write_def
      split: sum.splits if_splits option.splits prod.splits)

lemma EncryptFile_one_new:
  assumes "EncryptFile L W path key = (W', r)"
    and "w_files W q = None" and "w_files W' q \<noteq> None"
    and "w_files W q' = None" and "w_files W' q' \<noteq> None"
  shows "q = q'"
  using assms
  by (auto simp: EncryptFile_def Let_def os_OpenFile_excl_def file_Write_def
      split: sum.splits if_splits option.splits prod.splits)


lemma DecryptFile_InrD:
  assumes "DecryptFile L W path key = (W', Inr orig)"
  shows "sha256HexRegexp_MatchString (filepath_Base L path) \<and>
     (\<exists>n. w_files W path = Some n \<and> w_files W' path = Some n) \<and>
     w_files W orig = None \<and> w_files W' orig \<noteq> None \<and>
     (\<exists>data dec_data hdr body.
        ioutil_ReadFile W path = Inr data \<and>
        Decrypt L data (filepath_Base L path) key = Inr dec_data \<and>
        tar_Next L dec_data = TarEntry hdr body \<and>
        orig = filepath_Join L (filepath_Dir L path) (hdr_Name hdr))"
proof -
  from assms have m: "sha256HexRegexp_MatchString (filepath_Base L path)"
    by (auto simp: DecryptFile_def split: if_splits)
  from assms obtain info where st: "os_Stat L W path = Inr info"
    by (auto simp: DecryptFile_def split: if_splits sum.splits)
  then obtain n where n: "w_files W path = Some n"
    using follow_exists [of "Suc maxSymlinks" "w_files W" path]
    by (auto simp: os_Stat_def split: sum.splits prod.splits)
  from assms m st obtain data dec_data hdr body W1 W2 k where
    rd: "ioutil_ReadFile W path = Inr data" and
    dc: "Decrypt L data (filepath_Base L path) key = Inr dec_data" and
    tn: "tar_Next L dec_data = TarEntry hdr body" and
    o: "os_OpenFile_excl W (filepath_Join L (filepath_Dir L path) (hdr_Name hdr))
          (word_of_int (hdr_Mode hdr)) = Inr W1" and
    w: "file_Write W1 (filepath_Join L (filepath_Dir L path) (hdr_Name hdr)) body = (W2, k, None)" and
    c: "os_Chtimes W2 (filepath_Join L (filepath_Dir L path) (hdr_Name hdr)) (hdr_ModTime hdr) = Inr W'" and
    og: "orig = filepath_Join L (filepath_Dir L path) (hdr_Name hdr)"
    by (auto simp: DecryptFile_def Let_def split: if_splits sum.splits tar_next.splits prod.splits option.splits)
  from o have free: "w_files W orig = None"
    and W1: "w_files W1 = (w_files W)(orig \<mapsto> \<lparr>n_mode = word_of_int (hdr_Mode hdr) AND ModePerm, n_mtime = w_clock W, n_data = [], n_target = []\<rparr>)"
    unfolding og by (auto simp: os_OpenFile_excl_def split: option.splits)
  have ne: "orig \<noteq> path" using free n by auto
  define nd where "nd = \<lparr>n_mode = word_of_int (hdr_Mode hdr) AND ModePerm, n_mtime = w_clock W,
      n_data = take (min (length body) (w_space W1)) body, n_target = []\<rparr>"
  have md: "n_mode nd AND ModeSymlink = 0" by (simp add: nd_def perm_not_symlink)
  from w W1 have W2: "w_files W2 = (w_files W)(orig \<mapsto> nd)"
    unfolding og [symmetric] nd_def
    by (auto simp: file_Write_def Let_def split: option.splits)
  from c W2 md have W': "w_files W' = (w_files W)(orig \<mapsto> nd\<lparr>n_mtime := hdr_ModTime hdr\<rparr>)"
    unfolding og [symmetric] by (auto simp: os_Chtimes_def)
  show ?thesis
    using m n ne free W' rd dc tn og by auto
qed

lemma DecryptDirFiles_walkFn_removes:
  assumes "DecryptFile L W path key = (W', Inr orig)" and "\<not> IsDir i"
  shows "\<exists>W''. DecryptDirFiles_walkFn L key W path (Some i) = (W'', None) \<and>
     w_files W'' = (w_files W')(path := None)"
proof -
  from DecryptFile_InrD [OF assms(1)] obtain n where
    m: "sha256HexRegexp_MatchString (filepath_Base L path)" and
    n: "w_files W' path = Some n" by blast
  show ?thesis
    using assms m n by (simp add: DecryptDirFiles_walkFn_def os_Remove_def)
qed

lemma EncryptFile_outcomes:
  assumes "os_Stat L W path = Inr info" and "fi_mode info AND ModeType = 0"
    and "ioutil_ReadFile W path = Inr data"
    and "tar_archive L
          \<lparr>hdr_Name = fi_name info, hdr_Mode = uint (fi_mode info),
           hdr_Size = fi_size info, hdr_ModTime = fi_modtime info\<rparr> data = Inr buf"
    and "Encrypt L (w_entropy W) buf key = Inr (E, sig)"
    and "EncryptFile L W path key = (W', r)"
  shows "case w_files W (filepath_Join L (filepath_Dir L path) sig) of
           Some n \<Rightarrow> r = Inl ErrExist \<and> w_files W' = w_files W
         | None \<Rightarrow>
             if w_space W < length E then r = Inl ErrNoSpace
             else r = Inr (filepath_Join L (filepath_Dir L path) sig)"
  using assms
  by (auto simp: EncryptFile_def Let_def os_OpenFile_excl_def file_Write_def min_def
      split: option.splits)

lemma EncryptDirFiles_walkFn_skips:
  "fi_mode i AND ModeType \<noteq> 0 \<Longrightarrow> EncryptDirFiles_walkFn L key W path (Some i) = (W, None)"
  by (simp add: EncryptDirFiles_walkFn_def)

subsection \<open>The stand-in library\<close>

lemma stand_in_gzip_roundtrip: "gzip_roundtrip stand_in"
  by (auto simp: gzip_roundtrip_def stand_in_def)

lemma stand_in_hmac_size: "hmac_size stand_in"
  by (simp add: hmac_size_def stand_in_def)

lemma stand_in_sha512_size: "sha512_size stand_in"
  by (simp add: sha512_size_def stand_in_def)

lemma stand_in_scrypt_contract: "scrypt_contract stand_in"
  by (simp add: scrypt_contract_def stand_in_def)

lemma stand_in_Encrypt_hi:
  "Encrypt stand_in [1, 2, 3, 4, 5, 6, 7, 8, 9, 10, 11, 12, 13, 14, 15, 16, 17]
     [104, 105] [107, 101, 121] =
   Inr ([1, 2, 3, 4, 5, 6, 7, 8, 9, 10, 11, 12, 13, 14, 15, 16, 30, 106, 106],
        ''00000000000000000000000000000000000000000000000000000000000000c3'')"
  by code_simp

lemma stand_in_EncryptFile_notes:
  "(\<lambda>(W', r). (r, w_files W' ''d/0000000000000000000000000000000000000000000000000000000000000076'', w_files W' ''d/notes.txt'', w_files world_notes ''d/0000000000000000000000000000000000000000000000000000000000000076''))
     (EncryptFile stand_in world_notes ''d/notes.txt'' demo_key) =
   (Inr ''d/0000000000000000000000000000000000000000000000000000000000000076'',
    Some \<lparr>n_mode = perm_0400, n_mtime = 5, n_data = notes_artifact, n_target = []\<rparr>,
    Some \<lparr>n_mode = 420, n_mtime = 2, n_data = [104, 105], n_target = []\<rparr>,
    None)"
  by code_simp

lemma stand_in_DecryptFile_artifact:
  "(\<lambda>(W', r). (r, w_files W' ''d/0000000000000000000000000000000000000000000000000000000000000076'', w_files W' ''d/notes.txt''))
     (DecryptFile stand_in world_artifact ''d/0000000000000000000000000000000000000000000000000000000000000076'' demo_key) =
   (Inr ''d/notes.txt'',
    Some \<lparr>n_mode = perm_0400, n_mtime = 5, n_data = notes_artifact, n_target = []\<rparr>,
    Some \<lparr>n_mode = 420, n_mtime = 0, n_data = [104, 105], n_target = []\<rparr>)"
  by code_simp

lemma stand_in_DecryptDirFiles_symlink:
  "(\<lambda>(W', r). (r, w_files W' ''d/0000000000000000000000000000000000000000000000000000000000000076'', w_files W' ''d/notes.txt''))
     (DecryptDirFiles stand_in world_symlink [''d'', ''d/0000000000000000000000000000000000000000000000000000000000000076''] demo_key) =
   (None, None,
    Some \<lparr>n_mode = 420, n_mtime = 0, n_data = [104, 105], n_target = []\<rparr>)"
  by code_simp

section \<open>The claims\<close>

text \<open>
  Claim C1 (round trip). For every secret \<open>S\<close> and every plaintext \<open>P\<close>, of any length
  and any bytes: if \<open>Encrypt\<close> returns the envelope \<open>E\<close> and the signature \<open>g\<close>
  without error, then \<open>Decrypt\<close> of \<open>E\<close>, \<open>g\<close> and \<open>S\<close> returns exactly \<open>P\<close>. The random
  source \<open>rnd\<close> is arbitrary. Of the libraries only the round trip of gzip is assumed:
  the hex coding and the CFB stream are part of the model, and the MAC and the key
  derivation only have to be functions.
\<close>

theorem Decrypt_Encrypt_roundtrip:
  assumes "gzip_roundtrip L" and "Encrypt L rnd P S = Inr (E, g)"
  shows "Decrypt L E g S = Inr P"
proof -
  from Encrypt_InrD [OF assms(2)] obtain z where
    k: "length (generate32ByteKey L S) \<in> {16, 24, 32}" and
    z: "gzip_compress L P = Inr z" and r: "16 \<le> length rnd" and
    E: "E = take 16 rnd @
        XORKeyStream (aes_Encrypt L (generate32ByteKey L S)) False (take 16 rnd) z" and
    g: "g = hex_EncodeToString (hmac_sha256 L S E)" by blast
  have l: "length (take 16 rnd) = 16" using r by simp
  have t: "take 16 E = take 16 rnd" unfolding E using l by simp
  have d: "drop 16 E =
      XORKeyStream (aes_Encrypt L (generate32ByteKey L S)) False (take 16 rnd) z"
    unfolding E using l by simp
  have le: "\<not> length E < 16" unfolding E using l by simp
  have c: "aes_NewCipher L (generate32ByteKey L S) =
      Inr (aes_Encrypt L (generate32ByteKey L S))"
    using k by (auto simp: aes_NewCipher_def)
  have u: "gzip_decompress L z = Inr P" using assms(1) z by (simp add: gzip_roundtrip_def)
  show ?thesis
    unfolding Decrypt_def Decrypt_run_def BlockSize_def
    by (simp add: le g hex_roundtrip hmac_Equal_def c Let_def t d XORKeyStream_roundtrip u)
qed

theorem Decrypt_Encrypt_roundtrip_witness:
  "gzip_roundtrip stand_in \<and>
   Encrypt stand_in [1, 2, 3, 4, 5, 6, 7, 8, 9, 10, 11, 12, 13, 14, 15, 16, 17]
     [104, 105] [107, 101, 121] =
   Inr ([1, 2, 3, 4, 5, 6, 7, 8, 9, 10, 11, 12, 13, 14, 15, 16, 30, 106, 106],
        ''00000000000000000000000000000000000000000000000000000000000000c3'') \<and>
   Decrypt stand_in [1, 2, 3, 4, 5, 6, 7, 8, 9, 10, 11, 12, 13, 14, 15, 16, 30, 106, 106]
     ''00000000000000000000000000000000000000000000000000000000000000c3''
     [107, 101, 121] = Inr [104, 105]"
  using Decrypt_Encrypt_roundtrip [OF stand_in_gzip_roundtrip stand_in_Encrypt_hi]
    stand_in_gzip_roundtrip stand_in_Encrypt_hi
  by simp

text \<open>
  Claim C2 (authenticate, then decrypt). For every envelope \<open>E\<close> of at least 16 bytes,
  every signature \<open>g\<close> that decodes as hex to \<open>mac\<close>, and every secret \<open>S\<close>: if the
  HMAC-SHA-256 of \<open>E\<close> under the raw \<open>S\<close> differs from \<open>mac\<close>, then \<open>Decrypt\<close> returns
  the error "signature does not match data" and no plaintext, the only library calls
  made are the hex decoding and the MAC (no key derivation, no cipher, no
  \<open>XORKeyStream\<close>, no decompression), and the caller's buffer still holds \<open>E\<close>.
\<close>

theorem Decrypt_mac_mismatch_aborts:
  assumes "16 \<le> length E" and "hex_DecodeString g = Inr mac"
    and "hmac_sha256 L S E \<noteq> mac"
  shows "Decrypt L E g S = Inl ErrSignatureMismatch \<and>
         Decrypt_calls L E g S = [HexDecode, HmacSum] \<and>
         CFBXORKeyStream \<notin> set (Decrypt_calls L E g S) \<and>
         Decrypt_buffer L E g S = E"
  using assms
  by (auto simp: Decrypt_def Decrypt_buffer_def Decrypt_calls_def Decrypt_run_def
      BlockSize_def hmac_Equal_def)

theorem Decrypt_mac_mismatch_aborts_witness:
  "16 \<le> length [1, 2, 3, 4, 5, 6, 7, 8, 9, 10, 11, 12, 13, 14, 15, 16, 30, 106, 107 :: byte] \<and>
   hex_DecodeString ''00000000000000000000000000000000000000000000000000000000000000c3'' =
     Inr (replicate 31 0 @ [0xc3]) \<and>
   hmac_sha256 stand_in [107, 101, 121]
     [1, 2, 3, 4, 5, 6, 7, 8, 9, 10, 11, 12, 13, 14, 15, 16, 30, 106, 107] \<noteq>
     replicate 31 0 @ [0xc3] \<and>
   Decrypt stand_in [1, 2, 3, 4, 5, 6, 7, 8, 9, 10, 11, 12, 13, 14, 15, 16, 30, 106, 107]
     ''00000000000000000000000000000000000000000000000000000000000000c3''
     [107, 101, 121] = Inl ErrSignatureMismatch \<and>
   Decrypt_buffer stand_in
     [1, 2, 3, 4, 5, 6, 7, 8, 9, 10, 11, 12, 13, 14, 15, 16, 30, 106, 107]
     ''00000000000000000000000000000000000000000000000000000000000000c3''
     [107, 101, 121] = [1, 2, 3, 4, 5, 6, 7, 8, 9, 10, 11, 12, 13, 14, 15, 16, 30, 106, 107]"
proof -
  have h1: "16 \<le> length [1, 2, 3, 4, 5, 6, 7, 8, 9, 10, 11, 12, 13, 14, 15, 16, 30, 106, 107 :: byte]"
    by simp
  have h2: "hex_DecodeString
      ''00000000000000000000000000000000000000000000000000000000000000c3'' =
      Inr (replicate 31 0 @ [0xc3])"
    by code_simp
  have h3: "hmac_sha256 stand_in [107, 101, 121]
      [1, 2, 3, 4, 5, 6, 7, 8, 9, 10, 11, 12, 13, 14, 15, 16, 30, 106, 107] \<noteq>
      replicate 31 0 @ [0xc3]"
    by code_simp
  show ?thesis
    using Decrypt_mac_mismatch_aborts [OF h1 h2 h3] h1 h2 h3 by simp
qed

text \<open>
  Claim C3 (envelope and signature). For every plaintext \<open>P\<close> and secret \<open>S\<close>, the
  envelope \<open>E\<close> that \<open>Encrypt\<close> returns is the 16-byte initialization vector (the
  first 16 bytes of the random source) followed by the CFB ciphertext of the
  compressed plaintext \<open>z\<close>, which is as long as \<open>z\<close>: the envelope has
  \<open>16 + length z\<close> bytes. The signature \<open>g\<close> is the hex coding of the HMAC-SHA-256 of
  the whole envelope under the raw secret \<open>S\<close> (not under \<open>generate32ByteKey L S\<close>):
  64 characters, each a digit or a lower-case \<open>a\<close>..\<open>f\<close>, for a MAC of 32 bytes.
\<close>

theorem Encrypt_envelope_layout:
  assumes "hmac_size L" and "Encrypt L rnd P S = Inr (E, g)"
  shows "(\<exists>z. gzip_compress L P = Inr z \<and> length E = 16 + length z \<and>
            drop 16 E =
              XORKeyStream (aes_Encrypt L (generate32ByteKey L S)) False (take 16 E) z) \<and>
         take 16 E = take 16 rnd \<and> length (take 16 E) = 16 \<and>
         g = hex_EncodeToString (hmac_sha256 L S E) \<and>
         length (hmac_sha256 L S E) = 32 \<and> length g = 64 \<and> list_all lower_hex_char g \<and>
         sha256HexRegexp_MatchString g"
proof -
  from Encrypt_InrD [OF assms(2)] obtain z where
    z: "gzip_compress L P = Inr z" and r: "16 \<le> length rnd" and
    E: "E = take 16 rnd @
        XORKeyStream (aes_Encrypt L (generate32ByteKey L S)) False (take 16 rnd) z" and
    g: "g = hex_EncodeToString (hmac_sha256 L S E)" by blast
  have l: "length (take 16 rnd) = 16" using r by simp
  have t: "take 16 E = take 16 rnd" unfolding E using l by simp
  have d: "drop 16 E =
      XORKeyStream (aes_Encrypt L (generate32ByteKey L S)) False (take 16 rnd) z"
    unfolding E using l by simp
  have n: "length E = 16 + length z" unfolding E using l by (simp add: length_XORKeyStream)
  have m: "length (hmac_sha256 L S E) = 32" using assms(1) by (simp add: hmac_size_def)
  have lg: "length g = 64" unfolding g by (simp add: length_hex m)
  have lo: "list_all lower_hex_char g" unfolding g by (rule lower_hex_encode)
  show ?thesis using z t d n m lg lo g l
    by (auto simp: sha256HexRegexp_MatchString_def)
qed

theorem Encrypt_envelope_layout_witness:
  "hmac_size stand_in \<and>
   Encrypt stand_in [1, 2, 3, 4, 5, 6, 7, 8, 9, 10, 11, 12, 13, 14, 15, 16, 17]
     [104, 105] [107, 101, 121] =
   Inr ([1, 2, 3, 4, 5, 6, 7, 8, 9, 10, 11, 12, 13, 14, 15, 16, 30, 106, 106],
        ''00000000000000000000000000000000000000000000000000000000000000c3'') \<and>
   gzip_compress stand_in [104, 105] = Inr [0x1f, 104, 105] \<and>
   length [1, 2, 3, 4, 5, 6, 7, 8, 9, 10, 11, 12, 13, 14, 15, 16, 30, 106, 106 :: byte] =
     16 + length [0x1f, 104, 105 :: byte] \<and>
   ''00000000000000000000000000000000000000000000000000000000000000c3'' =
     hex_EncodeToString (hmac_sha256 stand_in [107, 101, 121]
       [1, 2, 3, 4, 5, 6, 7, 8, 9, 10, 11, 12, 13, 14, 15, 16, 30, 106, 106]) \<and>
   sha256HexRegexp_MatchString
     ''00000000000000000000000000000000000000000000000000000000000000c3''"
proof -
  have z: "gzip_compress stand_in [104, 105] = Inr [0x1f, 104, 105]"
    by (simp add: stand_in_def)
  note t = Encrypt_envelope_layout [OF stand_in_hmac_size stand_in_Encrypt_hi]
  have g: "''00000000000000000000000000000000000000000000000000000000000000c3'' =
     hex_EncodeToString (hmac_sha256 stand_in [107, 101, 121]
       [1, 2, 3, 4, 5, 6, 7, 8, 9, 10, 11, 12, 13, 14, 15, 16, 30, 106, 106])"
    using t by blast
  have m: "sha256HexRegexp_MatchString
     ''00000000000000000000000000000000000000000000000000000000000000c3''"
    using t by blast
  show ?thesis
    by (intro conjI stand_in_hmac_size stand_in_Encrypt_hi z g m) simp
qed

text \<open>
  Claim C4 (key derivation). \<open>generate32ByteKey\<close> is a function of the secret alone
  (the same secret always gives the same key) and has no failure path: for every
  secret, the empty one included, it returns the 32 bytes that \<open>scrypt.Key\<close> computes
  from the secret with the 64-byte SHA-512 digest of the secret as salt and the cost
  parameters \<open>N = 16384\<close>, \<open>r = 8\<close>, \<open>p = 1\<close>. These parameters pass the check of
  \<open>scrypt.Key\<close>, so the error that the source discards never occurs.
\<close>

theorem generate32ByteKey_total:
  assumes "scrypt_contract L" and "sha512_size L"
  shows "scrypt_N = 16384 \<and> scrypt_r = 8 \<and> scrypt_p = 1 \<and> keyLen = 32 \<and>
         scrypt_params_ok (2 ^ 31 - 1) scrypt_N scrypt_r scrypt_p \<and>
         length (sha512_Sum512 L secret) = 64 \<and>
         scrypt_Key L secret (sha512_Sum512 L secret) 16384 8 1 32 =
           Inr (generate32ByteKey L secret) \<and>
         length (generate32ByteKey L secret) = 32"
proof -
  have c: "scrypt_N = 16384 \<and> scrypt_r = 8 \<and> scrypt_p = 1 \<and> keyLen = 32"
    by (simp add: scrypt_N_def scrypt_r_def scrypt_p_def keyLen_def)
  from assms(1) scrypt_constants_ok obtain key where
    k: "scrypt_Key L secret (sha512_Sum512 L secret) scrypt_N scrypt_r scrypt_p keyLen =
        Inr key"
    and l: "length key = keyLen"
    unfolding scrypt_contract_def by blast
  have g: "generate32ByteKey L secret = key"
    by (simp add: generate32ByteKey_def Let_def k)
  show ?thesis using c k l g assms(2) scrypt_constants_ok
    by (simp add: sha512_size_def)
qed

theorem generate32ByteKey_total_witness:
  "scrypt_contract stand_in \<and> sha512_size stand_in \<and>
   length (sha512_Sum512 stand_in []) = 64 \<and>
   scrypt_Key stand_in [] (sha512_Sum512 stand_in []) 16384 8 1 32 =
     Inr (generate32ByteKey stand_in []) \<and>
   length (generate32ByteKey stand_in []) = 32 \<and>
   length (generate32ByteKey stand_in [107, 101, 121]) = 32"
  using generate32ByteKey_total [OF stand_in_scrypt_contract stand_in_sha512_size, of "[]"]
    generate32ByteKey_total
      [OF stand_in_scrypt_contract stand_in_sha512_size, of "[107, 101, 121]"]
    stand_in_scrypt_contract stand_in_sha512_size
  by simp

text \<open>
  Claim C10 (Decrypt writes into the caller's buffer). For an envelope \<open>E\<close> of at
  least 16 bytes and a signature that decodes as hex to \<open>mac\<close>: when the MAC of \<open>E\<close>
  is \<open>mac\<close>, the buffer keeps its first 16 bytes (the IV) and every byte after them
  is overwritten with the CFB decryption of the ciphertext, and \<open>Decrypt\<close> returns
  whatever the decompressor makes of those bytes, so the overwritten buffer is what
  the caller is left with also when that is a decompression error; when the MAC
  differs, the buffer still holds \<open>E\<close>. The key derivation is assumed to return its
  32 bytes, so that \<open>aes.NewCipher\<close> cannot fail.
\<close>

theorem Decrypt_buffer_mutation:
  assumes "scrypt_contract L" and "16 \<le> length E" and "hex_DecodeString g = Inr mac"
  shows "(hmac_sha256 L S E = mac \<longrightarrow>
            take 16 (Decrypt_buffer L E g S) = take 16 E \<and>
            drop 16 (Decrypt_buffer L E g S) =
              XORKeyStream (aes_Encrypt L (generate32ByteKey L S)) True (take 16 E)
                (drop 16 E) \<and>
            Decrypt L E g S = gzip_decompress L (drop 16 (Decrypt_buffer L E g S))) \<and>
         (hmac_sha256 L S E \<noteq> mac \<longrightarrow>
            Decrypt_buffer L E g S = E \<and> Decrypt L E g S = Inl ErrSignatureMismatch)"
proof -
  have k: "length (generate32ByteKey L S) \<in> {16, 24, 32}"
    using generate32ByteKey_length [OF assms(1)] by simp
  have l: "length (take 16 E) = 16" using assms(2) by simp
  show ?thesis
  proof (cases "hmac_sha256 L S E = mac")
    case True
    then have "hex_DecodeString g = Inr (hmac_sha256 L S E)" using assms(3) by simp
    from Decrypt_run_authentic [OF assms(2) this k] True l show ?thesis
      by (simp add: Decrypt_def Decrypt_buffer_def)
  next
    case False
    from Decrypt_run_mismatch [OF assms(2,3) False] False show ?thesis
      by (simp add: Decrypt_def Decrypt_buffer_def)
  qed
qed

theorem Decrypt_buffer_mutation_witness:
  "scrypt_contract stand_in \<and>
   16 \<le> length [1, 2, 3, 4, 5, 6, 7, 8, 9, 10, 11, 12, 13, 14, 15, 16, 7, 8, 9 :: byte] \<and>
   hex_DecodeString ''00000000000000000000000000000000000000000000000000000000000000e9'' =
     Inr (replicate 31 0 @ [0xe9]) \<and>
   hmac_sha256 stand_in [107, 101, 121]
     [1, 2, 3, 4, 5, 6, 7, 8, 9, 10, 11, 12, 13, 14, 15, 16, 7, 8, 9] =
     replicate 31 0 @ [0xe9] \<and>
   Decrypt_buffer stand_in [1, 2, 3, 4, 5, 6, 7, 8, 9, 10, 11, 12, 13, 14, 15, 16, 7, 8, 9]
     ''00000000000000000000000000000000000000000000000000000000000000e9''
     [107, 101, 121] = [1, 2, 3, 4, 5, 6, 7, 8, 9, 10, 11, 12, 13, 14, 15, 16, 6, 10, 10] \<and>
   Decrypt stand_in [1, 2, 3, 4, 5, 6, 7, 8, 9, 10, 11, 12, 13, 14, 15, 16, 7, 8, 9]
     ''00000000000000000000000000000000000000000000000000000000000000e9''
     [107, 101, 121] = Inl (LibraryError ''gzip: invalid header'') \<and>
   Decrypt stand_in [1, 2, 3, 4, 5, 6, 7, 8, 9, 10, 11, 12, 13, 14, 15, 16, 7, 8, 9]
     ''00000000000000000000000000000000000000000000000000000000000000e9''
     [107, 101, 121] =
   gzip_decompress stand_in (drop 16 (Decrypt_buffer stand_in
     [1, 2, 3, 4, 5, 6, 7, 8, 9, 10, 11, 12, 13, 14, 15, 16, 7, 8, 9]
     ''00000000000000000000000000000000000000000000000000000000000000e9''
     [107, 101, 121]))"
proof -
  have h1: "16 \<le> length [1, 2, 3, 4, 5, 6, 7, 8, 9, 10, 11, 12, 13, 14, 15, 16, 7, 8, 9 :: byte]"
    by simp
  have h2: "hex_DecodeString
      ''00000000000000000000000000000000000000000000000000000000000000e9'' =
      Inr (replicate 31 0 @ [0xe9])"
    by code_simp
  have h3: "hmac_sha256 stand_in [107, 101, 121]
      [1, 2, 3, 4, 5, 6, 7, 8, 9, 10, 11, 12, 13, 14, 15, 16, 7, 8, 9] =
      replicate 31 0 @ [0xe9]"
    by code_simp
  have e: "Decrypt_run stand_in [1, 2, 3, 4, 5, 6, 7, 8, 9, 10, 11, 12, 13, 14, 15, 16, 7, 8, 9]
      ''00000000000000000000000000000000000000000000000000000000000000e9''
      [107, 101, 121] =
      ([HexDecode, HmacSum, DeriveKey, NewCipher, CFBXORKeyStream, Gunzip],
       [1, 2, 3, 4, 5, 6, 7, 8, 9, 10, 11, 12, 13, 14, 15, 16, 6, 10, 10],
       Inl (LibraryError ''gzip: invalid header''))"
    by code_simp
  show ?thesis
    using Decrypt_buffer_mutation [OF stand_in_scrypt_contract h1 h2, of "[107, 101, 121]"]
      stand_in_scrypt_contract h1 h2 h3 e
    by (simp add: Decrypt_def Decrypt_buffer_def)
qed

text \<open>
  Claim C6 (tamper detection), as amended. Let \<open>Encrypt\<close> return the envelope \<open>E\<close>
  and the signature \<open>g\<close> for the plaintext \<open>P\<close> and the secret \<open>S\<close>.
  \<^item> Flipping one bit of \<open>E\<close>: whenever the HMAC-SHA-256 of the modified envelope
    under \<open>S\<close> differs from that of \<open>E\<close>, \<open>Decrypt\<close> fails with "signature does not
    match data".
  \<^item> Flipping one bit of a character of \<open>g\<close>: \<open>Decrypt\<close> fails with
    \<open>hex.InvalidByteError\<close> when the new character is no hex digit; it fails with
    "signature does not match data" when the new character is a hex digit of another
    value; and it returns \<open>P\<close> when the new character is the same digit in the other
    case (\<open>a\<close>..\<open>f\<close> became \<open>A\<close>..\<open>F\<close>), because \<open>hex.DecodeString\<close> accepts both
    cases. It never returns a plaintext other than \<open>P\<close>.
\<close>

theorem Decrypt_single_bit_change:
  assumes "gzip_roundtrip L" and "Encrypt L rnd P S = Inr (E, g)"
    and "i < length E" and "j < 8" and "k < length g" and "l < 8"
  shows
   "(hmac_sha256 L S (E[i := flip_byte_bit j (E ! i)]) \<noteq> hmac_sha256 L S E \<longrightarrow>
       Decrypt L (E[i := flip_byte_bit j (E ! i)]) g S = Inl ErrSignatureMismatch) \<and>
    Decrypt L E (g[k := flip_char_bit l (g ! k)]) S =
      (case fromHexChar (flip_char_bit l (g ! k)) of
         None \<Rightarrow> Inl (InvalidByteError (flip_char_bit l (g ! k)))
       | Some v \<Rightarrow>
           if fromHexChar (g ! k) = Some v then Inr P else Inl ErrSignatureMismatch)"
proof -
  from Encrypt_InrD [OF assms(2)] obtain z where
    r: "16 \<le> length rnd" and
    E: "E = take 16 rnd @
        XORKeyStream (aes_Encrypt L (generate32ByteKey L S)) False (take 16 rnd) z" and
    g: "g = hex_EncodeToString (hmac_sha256 L S E)" by blast
  have le: "16 \<le> length E" unfolding E using r by simp
  define m where "m = hmac_sha256 L S E"
  define c where "c = flip_char_bit l (g ! k)"
  have gm: "g = hex_EncodeToString m" using g m_def by simp
  have dg: "hex_DecodeString g = Inr m" unfolding gm by (rule hex_roundtrip)
  have km: "k < 2 * length m" using assms(5) unfolding gm by (simp add: length_hex)
  have a: "Decrypt L (E[i := flip_byte_bit j (E ! i)]) g S = Inl ErrSignatureMismatch"
    if "hmac_sha256 L S (E[i := flip_byte_bit j (E ! i)]) \<noteq> m"
  proof -
    have "16 \<le> length (E[i := flip_byte_bit j (E ! i)])" using le by simp
    from Decrypt_run_mismatch [OF this dg that] show ?thesis by (simp add: Decrypt_def)
  qed
  have b: "Decrypt L E (g[k := c]) S =
      (case fromHexChar c of
         None \<Rightarrow> Inl (InvalidByteError c)
       | Some v \<Rightarrow>
           if fromHexChar (g ! k) = Some v then Inr P else Inl ErrSignatureMismatch)"
  proof (cases "fromHexChar c")
    case None
    then have "hex_DecodeString (g[k := c]) = Inl (InvalidByteError c)"
      unfolding gm using hex_decode_flip(1) [OF km, of c] by simp
    then show ?thesis using None le
      by (simp add: Decrypt_def Decrypt_run_def BlockSize_def)
  next
    case (Some v)
    show ?thesis
    proof (cases "fromHexChar (g ! k) = Some v")
      case True
      then have "hex_DecodeString (g[k := c]) = Inr (hmac_sha256 L S E)"
        unfolding gm using hex_decode_flip(1) [OF km, of c] Some m_def by simp
      from Decrypt_authentic_roundtrip [OF assms(1,2) this] Some True show ?thesis by simp
    next
      case False
      define m' where "m' = m[k div 2 := set_nibble (m ! (k div 2)) k v]"
      have d: "hex_DecodeString (g[k := c]) = Inr m'"
        using hex_decode_flip(1) [OF km, of c] Some False unfolding gm m'_def by simp
      have "m' \<noteq> m" unfolding m'_def
        using hex_decode_flip(2) [OF km Some] False unfolding gm by simp
      then have "hmac_sha256 L S E \<noteq> m'" using m_def by auto
      from Decrypt_run_mismatch [OF le d this] Some False show ?thesis
        by (simp add: Decrypt_def)
    qed
  qed
  show ?thesis using a b unfolding m_def c_def by blast
qed

theorem Decrypt_single_bit_change_witness:
  "gzip_roundtrip stand_in \<and>
   Encrypt stand_in [1, 2, 3, 4, 5, 6, 7, 8, 9, 10, 11, 12, 13, 14, 15, 16, 17]
     [104, 105] [107, 101, 121] = Inr ([1, 2, 3, 4, 5, 6, 7, 8, 9, 10, 11, 12, 13, 14, 15, 16, 30, 106, 106], ''00000000000000000000000000000000000000000000000000000000000000c3'') \<and>
   16 < length [1, 2, 3, 4, 5, 6, 7, 8, 9, 10, 11, 12, 13, 14, 15, 16, 30, 106, 106] \<and> (0::nat) < 8 \<and>
   63 < length ''00000000000000000000000000000000000000000000000000000000000000c3'' \<and>
   hmac_sha256 stand_in [107, 101, 121] ([1, 2, 3, 4, 5, 6, 7, 8, 9, 10, 11, 12, 13, 14, 15, 16, 30, 106, 106][16 := flip_byte_bit 0 ([1, 2, 3, 4, 5, 6, 7, 8, 9, 10, 11, 12, 13, 14, 15, 16, 30, 106, 106] ! 16)]) \<noteq>
     hmac_sha256 stand_in [107, 101, 121] [1, 2, 3, 4, 5, 6, 7, 8, 9, 10, 11, 12, 13, 14, 15, 16, 30, 106, 106] \<and>
   Decrypt stand_in ([1, 2, 3, 4, 5, 6, 7, 8, 9, 10, 11, 12, 13, 14, 15, 16, 30, 106, 106][16 := flip_byte_bit 0 ([1, 2, 3, 4, 5, 6, 7, 8, 9, 10, 11, 12, 13, 14, 15, 16, 30, 106, 106] ! 16)]) ''00000000000000000000000000000000000000000000000000000000000000c3'' [107, 101, 121] =
     Inl ErrSignatureMismatch \<and>
   fromHexChar (''00000000000000000000000000000000000000000000000000000000000000c3'' ! 63) = Some 3 \<and>
   fromHexChar (flip_char_bit 0 (''00000000000000000000000000000000000000000000000000000000000000c3'' ! 63)) = Some 2 \<and>
   Decrypt stand_in [1, 2, 3, 4, 5, 6, 7, 8, 9, 10, 11, 12, 13, 14, 15, 16, 30, 106, 106] (''00000000000000000000000000000000000000000000000000000000000000c3''[63 := flip_char_bit 0 (''00000000000000000000000000000000000000000000000000000000000000c3'' ! 63)]) [107, 101, 121] =
     Inl ErrSignatureMismatch"
proof -
  have i: "16 < length [1, 2, 3, 4, 5, 6, 7, 8, 9, 10, 11, 12, 13, 14, 15, 16, 30, 106, 106]" by simp
  have k: "63 < length ''00000000000000000000000000000000000000000000000000000000000000c3''" by simp
  have j: "(0::nat) < 8" by simp
  note t = Decrypt_single_bit_change
    [OF stand_in_gzip_roundtrip stand_in_Encrypt_hi i j k j]
  have m: "hmac_sha256 stand_in [107, 101, 121] ([1, 2, 3, 4, 5, 6, 7, 8, 9, 10, 11, 12, 13, 14, 15, 16, 30, 106, 106][16 := flip_byte_bit 0 ([1, 2, 3, 4, 5, 6, 7, 8, 9, 10, 11, 12, 13, 14, 15, 16, 30, 106, 106] ! 16)]) \<noteq>
      hmac_sha256 stand_in [107, 101, 121] [1, 2, 3, 4, 5, 6, 7, 8, 9, 10, 11, 12, 13, 14, 15, 16, 30, 106, 106]"
    by code_simp
  have f1: "fromHexChar (''00000000000000000000000000000000000000000000000000000000000000c3'' ! 63) = Some 3" by code_simp
  have f2: "fromHexChar (flip_char_bit 0 (''00000000000000000000000000000000000000000000000000000000000000c3'' ! 63)) = Some 2" by code_simp
  have a: "Decrypt stand_in ([1, 2, 3, 4, 5, 6, 7, 8, 9, 10, 11, 12, 13, 14, 15, 16, 30, 106, 106][16 := flip_byte_bit 0 ([1, 2, 3, 4, 5, 6, 7, 8, 9, 10, 11, 12, 13, 14, 15, 16, 30, 106, 106] ! 16)]) ''00000000000000000000000000000000000000000000000000000000000000c3'' [107, 101, 121] =
      Inl ErrSignatureMismatch"
    using t [THEN conjunct1] m by blast
  have b: "Decrypt stand_in [1, 2, 3, 4, 5, 6, 7, 8, 9, 10, 11, 12, 13, 14, 15, 16, 30, 106, 106] (''00000000000000000000000000000000000000000000000000000000000000c3''[63 := flip_char_bit 0 (''00000000000000000000000000000000000000000000000000000000000000c3'' ! 63)]) [107, 101, 121] =
      Inl ErrSignatureMismatch"
    unfolding t [THEN conjunct2] f1 f2 by simp
  show ?thesis
    by (intro conjI stand_in_gzip_roundtrip stand_in_Encrypt_hi i j k m a f1 f2 b)
qed

text \<open>
  Claim C6 as the specification states it ("fails with AuthenticationFailure, never
  with a different error") does not hold for the signature. In the signature of the
  envelope above, flipping bit 5 of the character \<open>c\<close> at position 62 gives \<open>C\<close>: the
  signature decodes to the same MAC and \<open>Decrypt\<close> succeeds with the plaintext.
  Flipping bit 6 of the character \<open>0\<close> at position 0 gives \<open>p\<close>: \<open>Decrypt\<close> fails with
  \<open>hex.InvalidByteError\<close>, not with the signature error. (With any library at all,
  flipping the top bit of a character of the signature gives that error:
  \<open>Decrypt_signature_top_bit\<close>.)
\<close>

theorem Decrypt_signature_bit_counterexample:
  "Encrypt stand_in [1, 2, 3, 4, 5, 6, 7, 8, 9, 10, 11, 12, 13, 14, 15, 16, 17]
     [104, 105] [107, 101, 121] = Inr ([1, 2, 3, 4, 5, 6, 7, 8, 9, 10, 11, 12, 13, 14, 15, 16, 30, 106, 106], ''00000000000000000000000000000000000000000000000000000000000000c3'') \<and>
   ''00000000000000000000000000000000000000000000000000000000000000c3''[62 := flip_char_bit 5 (''00000000000000000000000000000000000000000000000000000000000000c3'' ! 62)] =
     ''00000000000000000000000000000000000000000000000000000000000000C3'' \<and>
   Decrypt stand_in [1, 2, 3, 4, 5, 6, 7, 8, 9, 10, 11, 12, 13, 14, 15, 16, 30, 106, 106] (''00000000000000000000000000000000000000000000000000000000000000c3''[62 := flip_char_bit 5 (''00000000000000000000000000000000000000000000000000000000000000c3'' ! 62)]) [107, 101, 121] =
     Inr [104, 105] \<and>
   Decrypt stand_in [1, 2, 3, 4, 5, 6, 7, 8, 9, 10, 11, 12, 13, 14, 15, 16, 30, 106, 106] (''00000000000000000000000000000000000000000000000000000000000000c3''[62 := flip_char_bit 5 (''00000000000000000000000000000000000000000000000000000000000000c3'' ! 62)]) [107, 101, 121] \<noteq>
     Inl ErrSignatureMismatch \<and>
   ''00000000000000000000000000000000000000000000000000000000000000c3''[0 := flip_char_bit 6 (''00000000000000000000000000000000000000000000000000000000000000c3'' ! 0)] =
     ''p0000000000000000000000000000000000000000000000000000000000000c3'' \<and>
   Decrypt stand_in [1, 2, 3, 4, 5, 6, 7, 8, 9, 10, 11, 12, 13, 14, 15, 16, 30, 106, 106] (''00000000000000000000000000000000000000000000000000000000000000c3''[0 := flip_char_bit 6 (''00000000000000000000000000000000000000000000000000000000000000c3'' ! 0)]) [107, 101, 121] =
     Inl (InvalidByteError CHR ''p'') \<and>
   Decrypt stand_in [1, 2, 3, 4, 5, 6, 7, 8, 9, 10, 11, 12, 13, 14, 15, 16, 30, 106, 106] (''00000000000000000000000000000000000000000000000000000000000000c3''[0 := flip_char_bit 6 (''00000000000000000000000000000000000000000000000000000000000000c3'' ! 0)]) [107, 101, 121] \<noteq>
     Inl ErrSignatureMismatch"
proof -
  have u: "''00000000000000000000000000000000000000000000000000000000000000c3''[62 := flip_char_bit 5 (''00000000000000000000000000000000000000000000000000000000000000c3'' ! 62)] =
      ''00000000000000000000000000000000000000000000000000000000000000C3''"
    by code_simp
  have d1: "Decrypt stand_in [1, 2, 3, 4, 5, 6, 7, 8, 9, 10, 11, 12, 13, 14, 15, 16, 30, 106, 106] (''00000000000000000000000000000000000000000000000000000000000000c3''[62 := flip_char_bit 5 (''00000000000000000000000000000000000000000000000000000000000000c3'' ! 62)]) [107, 101, 121] =
      Inr [104, 105]"
    by code_simp
  have p: "''00000000000000000000000000000000000000000000000000000000000000c3''[0 := flip_char_bit 6 (''00000000000000000000000000000000000000000000000000000000000000c3'' ! 0)] =
      ''p0000000000000000000000000000000000000000000000000000000000000c3''"
    by code_simp
  have d2: "Decrypt stand_in [1, 2, 3, 4, 5, 6, 7, 8, 9, 10, 11, 12, 13, 14, 15, 16, 30, 106, 106] (''00000000000000000000000000000000000000000000000000000000000000c3''[0 := flip_char_bit 6 (''00000000000000000000000000000000000000000000000000000000000000c3'' ! 0)]) [107, 101, 121] =
      Inl (InvalidByteError CHR ''p'')"
    by code_simp
  have n1: "Decrypt stand_in [1, 2, 3, 4, 5, 6, 7, 8, 9, 10, 11, 12, 13, 14, 15, 16, 30, 106, 106] (''00000000000000000000000000000000000000000000000000000000000000c3''[62 := flip_char_bit 5 (''00000000000000000000000000000000000000000000000000000000000000c3'' ! 62)]) [107, 101, 121] \<noteq>
      Inl ErrSignatureMismatch"
    unfolding d1 by simp
  have n2: "Decrypt stand_in [1, 2, 3, 4, 5, 6, 7, 8, 9, 10, 11, 12, 13, 14, 15, 16, 30, 106, 106] (''00000000000000000000000000000000000000000000000000000000000000c3''[0 := flip_char_bit 6 (''00000000000000000000000000000000000000000000000000000000000000c3'' ! 0)]) [107, 101, 121] \<noteq>
      Inl ErrSignatureMismatch"
    unfolding d2 by simp
  show ?thesis
    by (intro conjI stand_in_Encrypt_hi u d1 n1 p d2 n2)
qed

text \<open>
  Claim C7 (EncryptFile creates one artifact and leaves the source alone). Whenever
  \<open>EncryptFile\<close> succeeds, the path named a regular file, and the world differs from
  the one before in exactly one file: a new one, at the path made of the directory
  of the source and the signature (64 lower-case hex characters), which did not exist
  before (the file is created exclusively, so an existing one of that name makes the
  call fail), with permission 0400 and the whole envelope of the archived source as
  its contents (a short write makes the call fail). Whether the call succeeds or
  fails, every file that existed before, the source among them, is still there
  unchanged, and at most one path is new. Last, the outcomes: once the source is
  read, archived and encrypted to \<open>E\<close> with signature \<open>sig\<close>, the call fails with
  "file exists" and changes no file when the artifact's name is taken, fails when
  the device has no room for all of \<open>E\<close>, and succeeds otherwise.
\<close>

theorem EncryptFile_creates_one_artifact:
  assumes "hmac_size L" and "EncryptFile L W path key = (W', r)"
  shows "(\<forall>new_path. r = Inr new_path \<longrightarrow>
            (\<exists>info data buf E sig.
               os_Stat L W path = Inr info \<and> fi_mode info AND ModeType = 0 \<and>
               ioutil_ReadFile W path = Inr data \<and>
               tar_archive L
                 \<lparr>hdr_Name = fi_name info, hdr_Mode = uint (fi_mode info),
                  hdr_Size = fi_size info, hdr_ModTime = fi_modtime info\<rparr> data = Inr buf \<and>
               Encrypt L (w_entropy W) buf key = Inr (E, sig) \<and>
               sha256HexRegexp_MatchString sig \<and>
               new_path = filepath_Join L (filepath_Dir L path) sig \<and>
               w_files W new_path = None \<and>
               w_files W' = (w_files W)(new_path \<mapsto>
                 \<lparr>n_mode = perm_0400, n_mtime = w_clock W, n_data = E, n_target = []\<rparr>))) \<and>
         (\<forall>q n. w_files W q = Some n \<longrightarrow> w_files W' q = Some n) \<and>
         (\<forall>q q'. w_files W q = None \<and> w_files W' q \<noteq> None \<and>
                  w_files W q' = None \<and> w_files W' q' \<noteq> None \<longrightarrow> q = q') \<and>
         (\<forall>info data buf E sig.
            os_Stat L W path = Inr info \<and> fi_mode info AND ModeType = 0 \<and>
            ioutil_ReadFile W path = Inr data \<and>
            tar_archive L
              \<lparr>hdr_Name = fi_name info, hdr_Mode = uint (fi_mode info),
               hdr_Size = fi_size info, hdr_ModTime = fi_modtime info\<rparr> data = Inr buf \<and>
            Encrypt L (w_entropy W) buf key = Inr (E, sig) \<longrightarrow>
            (case w_files W (filepath_Join L (filepath_Dir L path) sig) of
               Some n \<Rightarrow> r = Inl ErrExist \<and> w_files W' = w_files W
             | None \<Rightarrow>
                 if w_space W < length E then r = Inl ErrNoSpace
                 else r = Inr (filepath_Join L (filepath_Dir L path) sig)))"
proof -
  have a: "\<exists>info data buf E sig.
      os_Stat L W path = Inr info \<and> fi_mode info AND ModeType = 0 \<and>
      ioutil_ReadFile W path = Inr data \<and>
      tar_archive L
        \<lparr>hdr_Name = fi_name info, hdr_Mode = uint (fi_mode info),
         hdr_Size = fi_size info, hdr_ModTime = fi_modtime info\<rparr> data = Inr buf \<and>
      Encrypt L (w_entropy W) buf key = Inr (E, sig) \<and>
      sha256HexRegexp_MatchString sig \<and>
      new_path = filepath_Join L (filepath_Dir L path) sig \<and>
      w_files W new_path = None \<and>
      w_files W' = (w_files W)(new_path \<mapsto>
        \<lparr>n_mode = perm_0400, n_mtime = w_clock W, n_data = E, n_target = []\<rparr>)"
    if "r = Inr new_path" for new_path
  proof -
    from assms(2) that have "EncryptFile L W path key = (W', Inr new_path)" by simp
    from EncryptFile_InrD [OF this] obtain info data buf E sig where
      p: "os_Stat L W path = Inr info" "fi_mode info AND ModeType = 0"
        "ioutil_ReadFile W path = Inr data"
        "tar_archive L
          \<lparr>hdr_Name = fi_name info, hdr_Mode = uint (fi_mode info),
           hdr_Size = fi_size info, hdr_ModTime = fi_modtime info\<rparr> data = Inr buf"
        "Encrypt L (w_entropy W) buf key = Inr (E, sig)"
        "new_path = filepath_Join L (filepath_Dir L path) sig"
        "w_files W new_path = None"
        "w_files W' = (w_files W)(new_path \<mapsto>
          \<lparr>n_mode = perm_0400, n_mtime = w_clock W, n_data = E, n_target = []\<rparr>)"
      by blast
    from Encrypt_InrD [OF p(5)] have "sig = hex_EncodeToString (hmac_sha256 L S0 E)"
      if "S0 = key" for S0 using that by blast
    then have g: "sig = hex_EncodeToString (hmac_sha256 L key E)" by simp
    have "length sig = 64" unfolding g using assms(1) by (simp add: length_hex hmac_size_def)
    moreover have "list_all lower_hex_char sig" unfolding g by (rule lower_hex_encode)
    ultimately have "sha256HexRegexp_MatchString sig"
      by (simp add: sha256HexRegexp_MatchString_def)
    with p show ?thesis by blast
  qed
  have b: "w_files W' q = Some n" if "w_files W q = Some n" for q n
    using EncryptFile_frame [OF assms(2) that] .
  have c: "q = q'"
    if "w_files W q = None \<and> w_files W' q \<noteq> None \<and>
        w_files W q' = None \<and> w_files W' q' \<noteq> None" for q q'
  proof -
    from that have "w_files W q = None" "w_files W' q \<noteq> None"
      "w_files W q' = None" "w_files W' q' \<noteq> None" by simp_all
    then show ?thesis by (rule EncryptFile_one_new [OF assms(2)])
  qed
  have d: "case w_files W (filepath_Join L (filepath_Dir L path) sig) of
        Some n \<Rightarrow> r = Inl ErrExist \<and> w_files W' = w_files W
      | None \<Rightarrow>
          if w_space W < length E then r = Inl ErrNoSpace
          else r = Inr (filepath_Join L (filepath_Dir L path) sig)"
    if "os_Stat L W path = Inr info \<and> fi_mode info AND ModeType = 0 \<and>
        ioutil_ReadFile W path = Inr data \<and>
        tar_archive L
          \<lparr>hdr_Name = fi_name info, hdr_Mode = uint (fi_mode info),
           hdr_Size = fi_size info, hdr_ModTime = fi_modtime info\<rparr> data = Inr buf \<and>
        Encrypt L (w_entropy W) buf key = Inr (E, sig)" for info data buf E sig
  proof -
    from that have p: "os_Stat L W path = Inr info" "fi_mode info AND ModeType = 0"
      "ioutil_ReadFile W path = Inr data"
      "tar_archive L
        \<lparr>hdr_Name = fi_name info, hdr_Mode = uint (fi_mode info),
         hdr_Size = fi_size info, hdr_ModTime = fi_modtime info\<rparr> data = Inr buf"
      "Encrypt L (w_entropy W) buf key = Inr (E, sig)" by simp_all
    show ?thesis by (rule EncryptFile_outcomes [OF p assms(2)])
  qed
  show ?thesis
  proof (intro conjI allI impI)
    fix new_path assume "r = Inr new_path"
    then show "\<exists>info data buf E sig.
      os_Stat L W path = Inr info \<and> fi_mode info AND ModeType = 0 \<and>
      ioutil_ReadFile W path = Inr data \<and>
      tar_archive L
        \<lparr>hdr_Name = fi_name info, hdr_Mode = uint (fi_mode info),
         hdr_Size = fi_size info, hdr_ModTime = fi_modtime info\<rparr> data = Inr buf \<and>
      Encrypt L (w_entropy W) buf key = Inr (E, sig) \<and>
      sha256HexRegexp_MatchString sig \<and>
      new_path = filepath_Join L (filepath_Dir L path) sig \<and>
      w_files W new_path = None \<and>
      w_files W' = (w_files W)(new_path \<mapsto>
        \<lparr>n_mode = perm_0400, n_mtime = w_clock W, n_data = E, n_target = []\<rparr>)"
      by (rule a)
  next
    fix q n assume "w_files W q = Some n"
    then show "w_files W' q = Some n" by (rule b)
  next
    fix q q'
    assume "w_files W q = None \<and> w_files W' q \<noteq> None \<and>
        w_files W q' = None \<and> w_files W' q' \<noteq> None"
    then show "q = q'" by (rule c)
  next
    fix info data buf E sig
    assume "os_Stat L W path = Inr info \<and> fi_mode info AND ModeType = 0 \<and>
        ioutil_ReadFile W path = Inr data \<and>
        tar_archive L
          \<lparr>hdr_Name = fi_name info, hdr_Mode = uint (fi_mode info),
           hdr_Size = fi_size info, hdr_ModTime = fi_modtime info\<rparr> data = Inr buf \<and>
        Encrypt L (w_entropy W) buf key = Inr (E, sig)"
    then show "case w_files W (filepath_Join L (filepath_Dir L path) sig) of
        Some n \<Rightarrow> r = Inl ErrExist \<and> w_files W' = w_files W
      | None \<Rightarrow>
          if w_space W < length E then r = Inl ErrNoSpace
          else r = Inr (filepath_Join L (filepath_Dir L path) sig)"
      by (rule d)
  qed
qed

theorem EncryptFile_creates_one_artifact_witness:
  "hmac_size stand_in \<and>
   os_Stat stand_in world_notes ''d/notes.txt'' =
     Inr \<lparr>fi_name = ''notes.txt'', fi_size = 2, fi_mode = 420, fi_modtime = 2\<rparr> \<and>
   (420 :: 32 word) AND ModeType = 0 \<and>
   ioutil_ReadFile world_notes ''d/notes.txt'' = Inr [104, 105] \<and>
   tar_archive stand_in
     \<lparr>hdr_Name = ''notes.txt'', hdr_Mode = 420, hdr_Size = 2, hdr_ModTime = 2\<rparr>
     [104, 105] = Inr [9, 110, 111, 116, 101, 115, 46, 116, 120, 116, 104, 105] \<and>
   Encrypt stand_in (w_entropy world_notes)
     [9, 110, 111, 116, 101, 115, 46, 116, 120, 116, 104, 105] demo_key =
     Inr (notes_artifact,
          ''0000000000000000000000000000000000000000000000000000000000000076'') \<and>
   filepath_Join stand_in (filepath_Dir stand_in ''d/notes.txt'')
     ''0000000000000000000000000000000000000000000000000000000000000076'' = ''d/0000000000000000000000000000000000000000000000000000000000000076'' \<and>
   w_files world_notes ''d/0000000000000000000000000000000000000000000000000000000000000076'' = None \<and>
   \<not> w_space world_notes < length notes_artifact \<and>
   snd (EncryptFile stand_in world_notes ''d/notes.txt'' demo_key) = Inr ''d/0000000000000000000000000000000000000000000000000000000000000076'' \<and>
   w_files (fst (EncryptFile stand_in world_notes ''d/notes.txt'' demo_key)) ''d/0000000000000000000000000000000000000000000000000000000000000076'' =
     Some \<lparr>n_mode = perm_0400, n_mtime = 5, n_data = notes_artifact, n_target = []\<rparr> \<and>
   w_files world_notes ''d/notes.txt'' =
     Some \<lparr>n_mode = 420, n_mtime = 2, n_data = [104, 105], n_target = []\<rparr> \<and>
   w_files (fst (EncryptFile stand_in world_notes ''d/notes.txt'' demo_key)) ''d/notes.txt'' =
     Some \<lparr>n_mode = 420, n_mtime = 2, n_data = [104, 105], n_target = []\<rparr>"
proof -
  have p1: "os_Stat stand_in world_notes ''d/notes.txt'' =
      Inr \<lparr>fi_name = ''notes.txt'', fi_size = 2, fi_mode = 420, fi_modtime = 2\<rparr>"
    by code_simp
  have p2: "(420 :: 32 word) AND ModeType = 0" by code_simp
  have p3: "ioutil_ReadFile world_notes ''d/notes.txt'' = Inr [104, 105]" by code_simp
  have p4: "tar_archive stand_in
      \<lparr>hdr_Name = ''notes.txt'', hdr_Mode = 420, hdr_Size = 2, hdr_ModTime = 2\<rparr>
      [104, 105] = Inr [9, 110, 111, 116, 101, 115, 46, 116, 120, 116, 104, 105]"
    by code_simp
  have p5: "Encrypt stand_in (w_entropy world_notes)
      [9, 110, 111, 116, 101, 115, 46, 116, 120, 116, 104, 105] demo_key =
      Inr (notes_artifact,
           ''0000000000000000000000000000000000000000000000000000000000000076'')"
    by code_simp
  have j: "filepath_Join stand_in (filepath_Dir stand_in ''d/notes.txt'')
      ''0000000000000000000000000000000000000000000000000000000000000076'' = ''d/0000000000000000000000000000000000000000000000000000000000000076''"
    by code_simp
  have f: "w_files world_notes ''d/0000000000000000000000000000000000000000000000000000000000000076'' = None" by (simp add: world_notes_def)
  have sp: "\<not> w_space world_notes < length notes_artifact"
    by (simp add: world_notes_def notes_artifact_def)
  have s: "w_files world_notes ''d/notes.txt'' =
      Some \<lparr>n_mode = 420, n_mtime = 2, n_data = [104, 105], n_target = []\<rparr>"
    by (simp add: world_notes_def)
  note t = EncryptFile_creates_one_artifact
    [OF stand_in_hmac_size surjective_pairing, of world_notes "''d/notes.txt''" demo_key]
  have "case w_files world_notes
        (filepath_Join stand_in (filepath_Dir stand_in ''d/notes.txt'')
          ''0000000000000000000000000000000000000000000000000000000000000076'') of
      Some n \<Rightarrow>
        snd (EncryptFile stand_in world_notes ''d/notes.txt'' demo_key) = Inl ErrExist \<and>
        w_files (fst (EncryptFile stand_in world_notes ''d/notes.txt'' demo_key)) =
          w_files world_notes
    | None \<Rightarrow>
        if w_space world_notes < length notes_artifact
        then snd (EncryptFile stand_in world_notes ''d/notes.txt'' demo_key) =
          Inl ErrNoSpace
        else snd (EncryptFile stand_in world_notes ''d/notes.txt'' demo_key) =
          Inr (filepath_Join stand_in (filepath_Dir stand_in ''d/notes.txt'')
            ''0000000000000000000000000000000000000000000000000000000000000076'')"
    using t [THEN conjunct2, THEN conjunct2, THEN conjunct2, rule_format,
        of "\<lparr>fi_name = ''notes.txt'', fi_size = 2, fi_mode = 420, fi_modtime = 2\<rparr>"
          "[104, 105]" "[9, 110, 111, 116, 101, 115, 46, 116, 120, 116, 104, 105]"
          notes_artifact
          "''0000000000000000000000000000000000000000000000000000000000000076''"]
      p1 p2 p3 p4 p5
    by simp
  then have r: "snd (EncryptFile stand_in world_notes ''d/notes.txt'' demo_key) = Inr ''d/0000000000000000000000000000000000000000000000000000000000000076''"
    unfolding j f using sp by simp
  have n: "w_files (fst (EncryptFile stand_in world_notes ''d/notes.txt'' demo_key)) ''d/0000000000000000000000000000000000000000000000000000000000000076'' =
      Some \<lparr>n_mode = perm_0400, n_mtime = 5, n_data = notes_artifact, n_target = []\<rparr>"
    using stand_in_EncryptFile_notes [unfolded split_beta] by simp
  have k: "w_files (fst (EncryptFile stand_in world_notes ''d/notes.txt'' demo_key))
      ''d/notes.txt'' =
      Some \<lparr>n_mode = 420, n_mtime = 2, n_data = [104, 105], n_target = []\<rparr>"
    using t [THEN conjunct2, THEN conjunct1] s by blast
  show ?thesis by (intro conjI stand_in_hmac_size p1 p2 p3 p4 p5 j f sp r n s k)
qed

text \<open>
  Claim C9 (life cycle of an artifact), as amended. \<open>DecryptFile\<close> consumes an
  artifact without deleting it: after a successful call the artifact is still at
  its path, unchanged. Deleting it is the work of the decrypt-tree walk: the function
  \<open>DecryptDirFiles\<close> gives to \<open>filepath.Walk\<close> removes the artifact right after
  \<open>DecryptFile\<close> has succeeded on it, returns no error, and leaves every other path
  as \<open>DecryptFile\<close> left it.
\<close>

theorem DecryptFile_leaves_artifact:
  assumes "DecryptFile L W path key = (W', Inr orig)"
  shows "(\<exists>n. w_files W path = Some n \<and> w_files W' path = Some n) \<and>
         (\<forall>i. \<not> IsDir i \<longrightarrow>
            (\<exists>W''. DecryptDirFiles_walkFn L key W path (Some i) = (W'', None) \<and>
               w_files W'' path = None \<and>
               (\<forall>q. q \<noteq> path \<longrightarrow> w_files W'' q = w_files W' q)))"
proof -
  have a: "\<exists>n. w_files W path = Some n \<and> w_files W' path = Some n"
    using DecryptFile_InrD [OF assms] by blast
  have b: "\<exists>W''. DecryptDirFiles_walkFn L key W path (Some i) = (W'', None) \<and>
      w_files W'' path = None \<and> (\<forall>q. q \<noteq> path \<longrightarrow> w_files W'' q = w_files W' q)"
    if "\<not> IsDir i" for i
  proof -
    from DecryptDirFiles_walkFn_removes [OF assms that] obtain W'' where
      "DecryptDirFiles_walkFn L key W path (Some i) = (W'', None)"
      "w_files W'' = (w_files W')(path := None)" by blast
    then show ?thesis by auto
  qed
  show ?thesis using a b by blast
qed

theorem DecryptFile_leaves_artifact_witness:
  "DecryptFile stand_in world_artifact ''d/0000000000000000000000000000000000000000000000000000000000000076'' demo_key =
     (fst (DecryptFile stand_in world_artifact ''d/0000000000000000000000000000000000000000000000000000000000000076'' demo_key), Inr ''d/notes.txt'') \<and>
   w_files world_artifact ''d/0000000000000000000000000000000000000000000000000000000000000076'' =
     Some \<lparr>n_mode = perm_0400, n_mtime = 5, n_data = notes_artifact, n_target = []\<rparr> \<and>
   w_files (fst (DecryptFile stand_in world_artifact ''d/0000000000000000000000000000000000000000000000000000000000000076'' demo_key)) ''d/0000000000000000000000000000000000000000000000000000000000000076'' =
     w_files world_artifact ''d/0000000000000000000000000000000000000000000000000000000000000076'' \<and>
   \<not> IsDir \<lparr>fi_name = ''0000000000000000000000000000000000000000000000000000000000000076'',
      fi_size = 29, fi_mode = perm_0400, fi_modtime = 5\<rparr> \<and>
   snd (DecryptDirFiles_walkFn stand_in demo_key world_artifact ''d/0000000000000000000000000000000000000000000000000000000000000076''
     (Some \<lparr>fi_name = ''0000000000000000000000000000000000000000000000000000000000000076'',
      fi_size = 29, fi_mode = perm_0400, fi_modtime = 5\<rparr>)) = None \<and>
   w_files (fst (DecryptDirFiles_walkFn stand_in demo_key world_artifact ''d/0000000000000000000000000000000000000000000000000000000000000076''
     (Some \<lparr>fi_name = ''0000000000000000000000000000000000000000000000000000000000000076'',
      fi_size = 29, fi_mode = perm_0400, fi_modtime = 5\<rparr>))) ''d/0000000000000000000000000000000000000000000000000000000000000076'' = None"
proof -
  note e = stand_in_DecryptFile_artifact [unfolded split_beta]
  have r: "snd (DecryptFile stand_in world_artifact ''d/0000000000000000000000000000000000000000000000000000000000000076'' demo_key) = Inr ''d/notes.txt''"
    using e by simp
  have h: "DecryptFile stand_in world_artifact ''d/0000000000000000000000000000000000000000000000000000000000000076'' demo_key =
      (fst (DecryptFile stand_in world_artifact ''d/0000000000000000000000000000000000000000000000000000000000000076'' demo_key), Inr ''d/notes.txt'')"
    using r by (simp add: prod_eq_iff)
  have w: "w_files world_artifact ''d/0000000000000000000000000000000000000000000000000000000000000076'' =
      Some \<lparr>n_mode = perm_0400, n_mtime = 5, n_data = notes_artifact, n_target = []\<rparr>"
    by (simp add: world_artifact_def perm_0400_def)
  have d: "\<not> IsDir \<lparr>fi_name = ''0000000000000000000000000000000000000000000000000000000000000076'',
      fi_size = 29, fi_mode = perm_0400, fi_modtime = 5\<rparr>"
    by (simp add: IsDir_def perm_0400_def ModeDir_def)
  note t = DecryptFile_leaves_artifact [OF h]
  have k: "w_files (fst (DecryptFile stand_in world_artifact ''d/0000000000000000000000000000000000000000000000000000000000000076'' demo_key)) ''d/0000000000000000000000000000000000000000000000000000000000000076'' =
      w_files world_artifact ''d/0000000000000000000000000000000000000000000000000000000000000076''"
    using t [THEN conjunct1] by auto
  from t [THEN conjunct2] d obtain W'' where
    v: "DecryptDirFiles_walkFn stand_in demo_key world_artifact ''d/0000000000000000000000000000000000000000000000000000000000000076''
          (Some \<lparr>fi_name = ''0000000000000000000000000000000000000000000000000000000000000076'',
      fi_size = 29, fi_mode = perm_0400, fi_modtime = 5\<rparr>) =
        (W'', None)" and
    g: "w_files W'' ''d/0000000000000000000000000000000000000000000000000000000000000076'' = None" by blast
  have v1: "snd (DecryptDirFiles_walkFn stand_in demo_key world_artifact ''d/0000000000000000000000000000000000000000000000000000000000000076''
      (Some \<lparr>fi_name = ''0000000000000000000000000000000000000000000000000000000000000076'',
      fi_size = 29, fi_mode = perm_0400, fi_modtime = 5\<rparr>)) = None"
    using v by simp
  have v2: "w_files (fst (DecryptDirFiles_walkFn stand_in demo_key world_artifact ''d/0000000000000000000000000000000000000000000000000000000000000076''
      (Some \<lparr>fi_name = ''0000000000000000000000000000000000000000000000000000000000000076'',
      fi_size = 29, fi_mode = perm_0400, fi_modtime = 5\<rparr>))) ''d/0000000000000000000000000000000000000000000000000000000000000076'' =
      None"
    using v g by simp
  show ?thesis by (intro conjI h w k d v1 v2)
qed

text \<open>
  Claim C9 as the specification states it ("after a successful DecryptFile call on
  an artifact path, the artifact file no longer exists") fails: in \<open>world_artifact\<close>
  the call on the artifact succeeds and restores \<open>d/notes.txt\<close>, and the artifact is
  still there with the contents it had.
\<close>

theorem DecryptFile_deletes_artifact_counterexample:
  "snd (DecryptFile stand_in world_artifact ''d/0000000000000000000000000000000000000000000000000000000000000076'' demo_key) = Inr ''d/notes.txt'' \<and>
   w_files (fst (DecryptFile stand_in world_artifact ''d/0000000000000000000000000000000000000000000000000000000000000076'' demo_key)) ''d/0000000000000000000000000000000000000000000000000000000000000076'' =
     Some \<lparr>n_mode = perm_0400, n_mtime = 5, n_data = notes_artifact, n_target = []\<rparr> \<and>
   w_files (fst (DecryptFile stand_in world_artifact ''d/0000000000000000000000000000000000000000000000000000000000000076'' demo_key)) ''d/0000000000000000000000000000000000000000000000000000000000000076'' \<noteq> None \<and>
   w_files (fst (DecryptFile stand_in world_artifact ''d/0000000000000000000000000000000000000000000000000000000000000076'' demo_key)) ''d/notes.txt'' =
     Some \<lparr>n_mode = 420, n_mtime = 0, n_data = [104, 105], n_target = []\<rparr>"
  using stand_in_DecryptFile_artifact [unfolded split_beta] by simp

text \<open>
  Claim C5 (an archive with no entry). The specification asks that \<open>DecryptFile\<close>
  be a no-op that returns no error when the decrypted archive holds no entry. The
  code does pass the \<open>io.EOF\<close> of \<open>tr.Next()\<close>, but goes on to read \<open>hdr.Name\<close> of
  the \<open>nil\<close> header: for every artifact that authenticates and decrypts and whose
  archive is at its end at once, \<open>DecryptFile\<close> panics. No file is restored; the
  world is as it was.
\<close>

theorem DecryptFile_empty_archive_panics:
  assumes "sha256HexRegexp_MatchString (filepath_Base L path)"
    and "os_Stat L W path = Inr info" and "fi_mode info AND ModeType = 0"
    and "ioutil_ReadFile W path = Inr data"
    and "Decrypt L data (filepath_Base L path) key = Inr dec_data"
    and "tar_Next L dec_data = TarEOF"
  shows "DecryptFile L W path key = (W, Inl PanicNilDereference)"
  using assms by (simp add: DecryptFile_def)

theorem DecryptFile_empty_archive_panics_witness:
  "sha256HexRegexp_MatchString (filepath_Base stand_in ''d/00000000000000000000000000000000000000000000000000000000000000ef'') \<and>
   os_Stat stand_in world_empty_archive ''d/00000000000000000000000000000000000000000000000000000000000000ef'' =
     Inr \<lparr>fi_name = ''00000000000000000000000000000000000000000000000000000000000000ef'',
          fi_size = 17, fi_mode = perm_0400, fi_modtime = 5\<rparr> \<and>
   ioutil_ReadFile world_empty_archive ''d/00000000000000000000000000000000000000000000000000000000000000ef'' =
     Inr [1, 2, 3, 4, 5, 6, 7, 8, 9, 10, 11, 12, 13, 14, 15, 16, 30] \<and>
   Decrypt stand_in [1, 2, 3, 4, 5, 6, 7, 8, 9, 10, 11, 12, 13, 14, 15, 16, 30]
     (filepath_Base stand_in ''d/00000000000000000000000000000000000000000000000000000000000000ef'') demo_key = Inr [] \<and>
   tar_Next stand_in [] = TarEOF \<and>
   DecryptFile stand_in world_empty_archive ''d/00000000000000000000000000000000000000000000000000000000000000ef'' demo_key =
     (world_empty_archive, Inl PanicNilDereference)"
proof -
  have h1: "sha256HexRegexp_MatchString (filepath_Base stand_in ''d/00000000000000000000000000000000000000000000000000000000000000ef'')"
    by code_simp
  have h2: "os_Stat stand_in world_empty_archive ''d/00000000000000000000000000000000000000000000000000000000000000ef'' =
      Inr \<lparr>fi_name = ''00000000000000000000000000000000000000000000000000000000000000ef'',
           fi_size = 17, fi_mode = perm_0400, fi_modtime = 5\<rparr>"
    by code_simp
  have h3: "fi_mode
      \<lparr>fi_name = ''00000000000000000000000000000000000000000000000000000000000000ef'',
       fi_size = 17, fi_mode = perm_0400, fi_modtime = 5\<rparr> AND ModeType = 0"
    by code_simp
  have h4: "ioutil_ReadFile world_empty_archive ''d/00000000000000000000000000000000000000000000000000000000000000ef'' =
      Inr [1, 2, 3, 4, 5, 6, 7, 8, 9, 10, 11, 12, 13, 14, 15, 16, 30]"
    by code_simp
  have h5: "Decrypt stand_in [1, 2, 3, 4, 5, 6, 7, 8, 9, 10, 11, 12, 13, 14, 15, 16, 30]
      (filepath_Base stand_in ''d/00000000000000000000000000000000000000000000000000000000000000ef'') demo_key = Inr []"
    by code_simp
  have h6: "tar_Next stand_in [] = TarEOF" by (simp add: stand_in_def)
  show ?thesis
    by (intro conjI h1 h2 h4 h5 h6 DecryptFile_empty_archive_panics [OF h1 h2 h3 h4 h5 h6])
qed

text \<open>
  Claim C8 (walks and entries that are not regular files). The specification asks
  that neither walk ever reads, decrypts or deletes a symbolic link. The decrypt-tree
  walk does: its function only skips directories, and \<open>DecryptFile\<close> tests the type
  of what \<open>os.Stat\<close> finds behind the link. In \<open>world_symlink\<close> the entry of \<open>d\<close> is
  a symbolic link (its \<open>os.Lstat\<close> mode has a type bit) to the artifact in \<open>s\<close>;
  the walk over \<open>d\<close> reads the artifact through the link, restores \<open>d/notes.txt\<close>
  from it, deletes the link and returns no error.
\<close>

theorem DecryptDirFiles_decrypts_and_removes_symlink:
  "os_Lstat stand_in world_symlink ''d/0000000000000000000000000000000000000000000000000000000000000076'' =
     Inr \<lparr>fi_name = ''0000000000000000000000000000000000000000000000000000000000000076'',
          fi_size = 0, fi_mode = ModeSymlink OR 511, fi_modtime = 6\<rparr> \<and>
   (ModeSymlink OR 511) AND ModeType \<noteq> 0 \<and>
   snd (DecryptDirFiles stand_in world_symlink [''d'', ''d/0000000000000000000000000000000000000000000000000000000000000076''] demo_key) = None \<and>
   w_files (fst (DecryptDirFiles stand_in world_symlink [''d'', ''d/0000000000000000000000000000000000000000000000000000000000000076''] demo_key)) ''d/0000000000000000000000000000000000000000000000000000000000000076'' = None \<and>
   w_files (fst (DecryptDirFiles stand_in world_symlink [''d'', ''d/0000000000000000000000000000000000000000000000000000000000000076''] demo_key))
     ''d/notes.txt'' =
     Some \<lparr>n_mode = 420, n_mtime = 0, n_data = [104, 105], n_target = []\<rparr>"
proof -
  have l: "os_Lstat stand_in world_symlink ''d/0000000000000000000000000000000000000000000000000000000000000076'' =
      Inr \<lparr>fi_name = ''0000000000000000000000000000000000000000000000000000000000000076'',
           fi_size = 0, fi_mode = ModeSymlink OR 511, fi_modtime = 6\<rparr>"
    by code_simp
  have m: "(ModeSymlink OR 511) AND ModeType \<noteq> 0"
    by (simp add: ModeSymlink_def ModeType_def ModeDir_def ModeNamedPipe_def
        ModeSocket_def ModeDevice_def)
  note e = stand_in_DecryptDirFiles_symlink [unfolded split_beta]
  have r: "snd (DecryptDirFiles stand_in world_symlink [''d'', ''d/0000000000000000000000000000000000000000000000000000000000000076''] demo_key) = None"
    using e by simp
  have g: "w_files (fst (DecryptDirFiles stand_in world_symlink [''d'', ''d/0000000000000000000000000000000000000000000000000000000000000076''] demo_key)) ''d/0000000000000000000000000000000000000000000000000000000000000076'' =
      None"
    using e by simp
  have k: "w_files (fst (DecryptDirFiles stand_in world_symlink [''d'', ''d/0000000000000000000000000000000000000000000000000000000000000076''] demo_key))
      ''d/notes.txt'' =
      Some \<lparr>n_mode = 420, n_mtime = 0, n_data = [104, 105], n_target = []\<rparr>"
    using e by simp
  show ?thesis by (intro conjI l m r g k)
qed

end
